theory Spec2Isabelle
  imports Complex_Main "HOL-Library.AList" "HOL-Library.Char_ord" "HOL-Library.List_Lexorder"
begin

section \<open>Python values, exceptions and floats\<close>

text \<open>
  The order processor (\<^verbatim>\<open>index.py\<close> of the order-processing Lambda) works on untyped
  Python data: the items of the orders table as boto3 deserialises them and the decoded
  JSON of the queue messages. \<open>PNum\<close> is a number (\<^verbatim>\<open>Decimal\<close> from the table, \<^verbatim>\<open>int\<close> or
  \<^verbatim>\<open>float\<close> from JSON), \<open>PBinary\<close> a DynamoDB binary, \<open>PSet\<close> a DynamoDB set; a dict is an
  association list read with \<open>map_of\<close>.
\<close>

datatype pyval =
    PNone
  | PBool bool
  | PNum rat
  | PStr string
  | PBinary string
  | PList "pyval list"
  | PSet "pyval list"
  | PDict "(string \<times> pyval) list"

type_synonym pydict = "(string \<times> pyval) list"

datatype exn =
    KeyError string
  | TypeError string
  | ValueError string
  | AttributeError string
  | UnboundLocalError string
  | JSONDecodeError string
  | ClientError string

text \<open>\<^verbatim>\<open>str(e)\<close>: a \<^verbatim>\<open>KeyError\<close> prints the repr of its key, the others their message.\<close>

fun exn_str :: "exn \<Rightarrow> string" where
  "exn_str (KeyError k) = [CHR 0x27] @ k @ [CHR 0x27]"
| "exn_str (TypeError m) = m"
| "exn_str (ValueError m) = m"
| "exn_str (AttributeError m) = m"
| "exn_str (UnboundLocalError m) = m"
| "exn_str (JSONDecodeError m) = m"
| "exn_str (ClientError m) = m"

text \<open>
  A Python \<^verbatim>\<open>float\<close> is an IEEE-754 double: \<open>Fin r\<close> is the finite double of value \<open>r\<close>
  (one value for both zeros: the code only compares a float with zero, takes a minimum and
  sleeps for it, and none of these tells \<^verbatim>\<open>-0.0\<close> from \<^verbatim>\<open>0.0\<close>), then the two infinities and NaN.
\<close>

datatype pyfloat = Fin rat | PosInf | NegInf | NaN

fun float_lt :: "pyfloat \<Rightarrow> pyfloat \<Rightarrow> bool" where
  "float_lt NaN _ = False"
| "float_lt _ NaN = False"
| "float_lt (Fin a) (Fin b) = (a < b)"
| "float_lt (Fin a) PosInf = True"
| "float_lt (Fin a) NegInf = False"
| "float_lt PosInf _ = False"
| "float_lt NegInf NegInf = False"
| "float_lt NegInf _ = True"

fun float_le :: "pyfloat \<Rightarrow> pyfloat \<Rightarrow> bool" where
  "float_le NaN _ = False"
| "float_le _ NaN = False"
| "float_le (Fin a) (Fin b) = (a \<le> b)"
| "float_le (Fin a) PosInf = True"
| "float_le (Fin a) NegInf = False"
| "float_le PosInf PosInf = True"
| "float_le PosInf _ = False"
| "float_le NegInf _ = True"

text \<open>\<^verbatim>\<open>min(a, b)\<close> returns \<open>b\<close> only when \<open>b < a\<close>.\<close>

definition float_min :: "pyfloat \<Rightarrow> pyfloat \<Rightarrow> pyfloat" where
  "float_min a b = (if float_lt b a then b else a)"

text \<open>
  Rounding of a number to a double, as \<^verbatim>\<open>float()\<close> of a \<^verbatim>\<open>Decimal\<close> and float arithmetic do it:
  to the nearest double, a tie to the one with an even significand. \<open>bit_length\<close> is
  \<^verbatim>\<open>int.bit_length\<close>, \<open>floor_log2 a\<close> the exponent \<open>e\<close> with \<open>2^e \<le> a < 2^(e+1)\<close>. The doubles near
  \<open>a\<close> are the multiples of \<open>2^(e-52)\<close>, and of \<open>2^-1074\<close> below the normal range, so that a
  magnitude of at most \<open>2^-1075\<close> becomes zero; a result of \<open>2^1024\<close> or more is an infinity.
\<close>

function bit_length :: "int \<Rightarrow> nat" where
  "bit_length n = (if n \<le> 0 then 0 else Suc (bit_length (n div 2)))"
  by pat_completeness auto

termination bit_length
  by (relation "measure nat") auto

declare bit_length.simps [simp del]

definition floor_log2 :: "rat \<Rightarrow> int" where
  "floor_log2 a =
     (case quotient_of a of (p, q) \<Rightarrow>
        let c = int (bit_length p) - int (bit_length q)
        in if power_int 2 c \<le> a then c else c - 1)"

definition round_half_even :: "rat \<Rightarrow> int" where
  "round_half_even y =
     (let f = \<lfloor>y\<rfloor>; d = y - of_int f
      in if d < 1 / 2 then f else if 1 / 2 < d then f + 1 else if even f then f else f + 1)"

definition round_double :: "rat \<Rightarrow> pyfloat" where
  "round_double x =
     (if x = 0 then Fin 0
      else
        let a = \<bar>x\<bar>;
            e = max (floor_log2 a) (- 1022);
            q = power_int 2 (e - 52);
            r = of_int (round_half_even (a / q)) * q
        in if power_int 2 1024 \<le> r then (if 0 < x then PosInf else NegInf)
           else Fin (if 0 < x then r else - r))"

text \<open>Division by a positive constant that is a double (\<^verbatim>\<open>total_amount / 1000\<close>).\<close>

fun float_div :: "pyfloat \<Rightarrow> rat \<Rightarrow> pyfloat" where
  "float_div (Fin a) c = round_double (a / c)"
| "float_div x c = x"

text \<open>
  \<^verbatim>\<open>time.sleep\<close> raises on a negative length or NaN and has no other effect here. Only the
  sign of the length counts, so the literal \<^verbatim>\<open>0.1\<close> and the product \<^verbatim>\<open>item_count * 0.1\<close>, which
  are never negative, are written as the fractions \<open>1/10\<close> and \<open>item_count/10\<close>.
\<close>

definition time_sleep :: "pyfloat \<Rightarrow> exn + unit" where
  "time_sleep t =
     (if t = NaN \<or> float_lt t (Fin 0) then Inl (ValueError ''sleep length must be non-negative'')
      else Inr ())"

fun truthy :: "pyval \<Rightarrow> bool" where
  "truthy PNone = False"
| "truthy (PBool b) = b"
| "truthy (PNum d) = (d \<noteq> 0)"
| "truthy (PStr s) = (s \<noteq> [])"
| "truthy (PBinary b) = True"
| "truthy (PList xs) = (xs \<noteq> [])"
| "truthy (PSet xs) = (xs \<noteq> [])"
| "truthy (PDict kvs) = (kvs \<noteq> [])"

fun is_list :: "pyval \<Rightarrow> bool" where
  "is_list (PList xs) = True"
| "is_list _ = False"

fun is_dict :: "pyval \<Rightarrow> bool" where
  "is_dict (PDict kvs) = True"
| "is_dict _ = False"

text \<open>\<^verbatim>\<open>d[k]\<close> and \<^verbatim>\<open>d.get(k, default)\<close> on a dict.\<close>

definition py_getitem :: "pydict \<Rightarrow> string \<Rightarrow> exn + pyval" where
  "py_getitem d k = (case map_of d k of None \<Rightarrow> Inl (KeyError k) | Some v \<Rightarrow> Inr v)"

definition py_get :: "pydict \<Rightarrow> string \<Rightarrow> pyval \<Rightarrow> pyval" where
  "py_get d k dflt = (case map_of d k of None \<Rightarrow> dflt | Some v \<Rightarrow> v)"

text \<open>The same two on a value that need not be a dict.\<close>

fun py_subscript :: "pyval \<Rightarrow> string \<Rightarrow> exn + pyval" where
  "py_subscript (PDict d) k = py_getitem d k"
| "py_subscript (PStr s) k = Inl (TypeError ''string indices must be integers'')"
| "py_subscript (PList xs) k = Inl (TypeError ''list indices must be integers or slices'')"
| "py_subscript _ k = Inl (TypeError ''object is not subscriptable'')"

fun py_attr_get :: "pyval \<Rightarrow> string \<Rightarrow> pyval \<Rightarrow> exn + pyval" where
  "py_attr_get (PDict d) k dflt = Inr (py_get d k dflt)"
| "py_attr_get _ k dflt = Inl (AttributeError ''object has no attribute get'')"

fun py_len :: "pyval \<Rightarrow> exn + nat" where
  "py_len (PStr s) = Inr (length s)"
| "py_len (PList xs) = Inr (length xs)"
| "py_len (PSet xs) = Inr (length xs)"
| "py_len (PDict kvs) = Inr (length (remdups (map fst kvs)))"
| "py_len _ = Inl (TypeError ''object has no len()'')"

fun py_iter :: "pyval \<Rightarrow> exn + pyval list" where
  "py_iter (PStr s) = Inr (map (\<lambda>c. PStr [c]) s)"
| "py_iter (PList xs) = Inr xs"
| "py_iter (PSet xs) = Inr xs"
| "py_iter (PDict kvs) = Inr (map PStr (remdups (map fst kvs)))"
| "py_iter _ = Inl (TypeError ''object is not iterable'')"

text \<open>\<^verbatim>\<open>x[:8]\<close>.\<close>

fun py_slice8 :: "pyval \<Rightarrow> exn + pyval" where
  "py_slice8 (PStr s) = Inr (PStr (take 8 s))"
| "py_slice8 (PList xs) = Inr (PList (take 8 xs))"
| "py_slice8 _ = Inl (TypeError ''object is not subscriptable'')"

section \<open>The environment and the world\<close>

text \<open>
  What the process does not decide is read from an environment: the configured topic, the
  Python runtime's \<^verbatim>\<open>float(str)\<close> and \<^verbatim>\<open>json.loads\<close> (\<open>None\<close> where they raise), and, for each
  interaction with the outside (numbered by \<open>tick\<close>), the value of \<^verbatim>\<open>random.random()\<close>, the
  clock reading, and whether the service call raises.
\<close>

record env =
  SNS_TOPIC_ARN :: "string option"
  float_of_str :: "string \<Rightarrow> pyfloat option"
  json_loads :: "string \<Rightarrow> pyval option"
  random :: "nat \<Rightarrow> rat"
  utcnow :: "nat \<Rightarrow> string"
  query_fault :: "nat \<Rightarrow> exn option"
  update_fault :: "nat \<Rightarrow> exn option"
  publish_fault :: "nat \<Rightarrow> exn option"
  metrics_fault :: "nat \<Rightarrow> exn option"

text \<open>The text of a notification, by its template and the values filled in.\<close>

datatype sns_message =
    CompletedMsg pyval pyval nat pyval string
  | FailedMsg pyval pyval "string option" string
  | OtherMsg pyval string "string option"

text \<open>
  The trace lists the requests sent to the services and the invocations of the step
  executors, in order. \<open>UpdateItem\<close> carries the key and the attributes the request sets.
\<close>

datatype event =
    Query pyval
  | UpdateItem pyval pyval pydict
  | Exec string
  | Publish string sns_message string
  | PutMetricData nat nat

text \<open>
  The orders table has partition key \<^verbatim>\<open>orderId\<close> and sort key \<^verbatim>\<open>timestamp\<close>, both strings
  (\<^verbatim>\<open>cdk-app.py\<close>): it maps a key to the item's other attributes.
\<close>

record world =
  table :: "((string \<times> string) \<times> pydict) list"
  trace :: "event list"
  tick :: nat

type_synonym 'a io = "world \<Rightarrow> (exn + 'a) \<times> world"

definition py_return :: "'a \<Rightarrow> 'a io" where
  "py_return x w = (Inr x, w)"

definition py_lift :: "exn + 'a \<Rightarrow> 'a io" where
  "py_lift r w = (r, w)"

definition py_bind :: "'a io \<Rightarrow> ('a \<Rightarrow> 'b io) \<Rightarrow> 'b io" where
  "py_bind m f w = (case m w of (Inl ex, w') \<Rightarrow> (Inl ex, w') | (Inr x, w') \<Rightarrow> f x w')"

text \<open>\<^verbatim>\<open>try: m  except Exception as ex: h ex\<close>.\<close>

definition py_try :: "'a io \<Rightarrow> (exn \<Rightarrow> 'a io) \<Rightarrow> 'a io" where
  "py_try m h w = (case m w of (Inl ex, w') \<Rightarrow> h ex w' | (Inr x, w') \<Rightarrow> (Inr x, w'))"

definition log_event :: "event \<Rightarrow> unit io" where
  "log_event ev w = (Inr (), w\<lparr>trace := trace w @ [ev]\<rparr>)"

definition datetime_utcnow :: "env \<Rightarrow> string io" where
  "datetime_utcnow e w = (Inr (utcnow e (tick w)), w\<lparr>tick := Suc (tick w)\<rparr>)"

definition random_random :: "env \<Rightarrow> rat io" where
  "random_random e w = (Inr (random e (tick w)), w\<lparr>tick := Suc (tick w)\<rparr>)"

text \<open>
  \<^verbatim>\<open>float(v)\<close>. The numbers of an order are the \<^verbatim>\<open>Decimal\<close>s that boto3 reads from the table:
  \<^verbatim>\<open>float()\<close> of one is the double nearest to it. \<^verbatim>\<open>True\<close> and \<^verbatim>\<open>False\<close> are 1.0 and 0.0, a
  string is parsed (or refused), and any other value is a \<^verbatim>\<open>TypeError\<close>.
\<close>

definition to_float :: "env \<Rightarrow> pyval \<Rightarrow> exn + pyfloat" where
  "to_float e v =
     (case v of
        PNum d \<Rightarrow> Inr (round_double d)
      | PBool b \<Rightarrow> Inr (Fin (if b then 1 else 0))
      | PStr s \<Rightarrow> (case float_of_str e s of
                     None \<Rightarrow> Inl (ValueError ''could not convert string to float'')
                   | Some f \<Rightarrow> Inr f)
      | _ \<Rightarrow> Inl (TypeError ''float() argument must be a string or a real number''))"

definition json_loads_py :: "env \<Rightarrow> pyval \<Rightarrow> exn + pyval" where
  "json_loads_py e body =
     (case body of
        PStr s \<Rightarrow> (case json_loads e s of
                     None \<Rightarrow> Inl (JSONDecodeError ''Expecting value'')
                   | Some v \<Rightarrow> Inr v)
      | _ \<Rightarrow> Inl (TypeError ''the JSON object must be str, bytes or bytearray''))"

section \<open>The services\<close>

text \<open>
  A query returns the items of one partition in ascending order of the sort key
  (\<^verbatim>\<open>ScanIndexForward\<close> is not passed and defaults to true); the key attributes come first
  in the item. A key value that is not a non-empty string is rejected by the service.
\<close>

definition item_of :: "(string \<times> string) \<times> pydict \<Rightarrow> pydict" where
  "item_of r = (''orderId'', PStr (fst (fst r))) # (''timestamp'', PStr (snd (fst r))) # snd r"

definition query_items :: "string \<Rightarrow> ((string \<times> string) \<times> pydict) list \<Rightarrow> pydict list" where
  "query_items oid tbl =
     map item_of (sort_key (\<lambda>r. snd (fst r)) (filter (\<lambda>r. fst (fst r) = oid) tbl))"

definition table_query :: "env \<Rightarrow> pyval \<Rightarrow> (pydict list) io" where
  "table_query e order_id w =
     (let w' = w\<lparr>tick := Suc (tick w), trace := trace w @ [Query order_id]\<rparr> in
      case order_id of
        PStr oid \<Rightarrow>
          if oid = [] then (Inl (ClientError ''ValidationException''), w')
          else (case query_fault e (tick w) of
                  Some ex \<Rightarrow> (Inl ex, w')
                | None \<Rightarrow> (Inr (query_items oid (table w)), w'))
      | _ \<Rightarrow> (Inl (ClientError ''ValidationException''), w'))"

text \<open>\<^verbatim>\<open>update_item\<close> with a \<^verbatim>\<open>SET\<close> expression: the item is created when the key is new.\<close>

definition put_attrs ::
  "string \<times> string \<Rightarrow> pydict \<Rightarrow> ((string \<times> string) \<times> pydict) list \<Rightarrow> ((string \<times> string) \<times> pydict) list" where
  "put_attrs key assigns tbl =
     AList.update key
       (fold (\<lambda>kv. AList.update (fst kv) (snd kv)) assigns
          (case map_of tbl key of None \<Rightarrow> [] | Some attrs \<Rightarrow> attrs))
       tbl"

definition table_update_item :: "env \<Rightarrow> pyval \<Rightarrow> pyval \<Rightarrow> pydict \<Rightarrow> unit io" where
  "table_update_item e order_id timestamp assigns w =
     (let w' = w\<lparr>tick := Suc (tick w), trace := trace w @ [UpdateItem order_id timestamp assigns]\<rparr> in
      case (order_id, timestamp) of
        (PStr oid, PStr ts) \<Rightarrow>
          if oid = [] \<or> ts = [] then (Inl (ClientError ''ValidationException''), w')
          else (case update_fault e (tick w) of
                  Some ex \<Rightarrow> (Inl ex, w')
                | None \<Rightarrow> (Inr (), w'\<lparr>table := put_attrs (oid, ts) assigns (table w)\<rparr>))
      | _ \<Rightarrow> (Inl (ClientError ''ValidationException''), w'))"

definition sns_publish :: "env \<Rightarrow> string \<Rightarrow> sns_message \<Rightarrow> string \<Rightarrow> unit io" where
  "sns_publish e arn message subject w =
     (let w' = w\<lparr>tick := Suc (tick w), trace := trace w @ [Publish arn message subject]\<rparr> in
      case publish_fault e (tick w) of Some ex \<Rightarrow> (Inl ex, w') | None \<Rightarrow> (Inr (), w'))"

definition cloudwatch_put_metric_data :: "env \<Rightarrow> nat \<Rightarrow> nat \<Rightarrow> unit io" where
  "cloudwatch_put_metric_data e successful failed w =
     (let w' = w\<lparr>tick := Suc (tick w), trace := trace w @ [PutMetricData successful failed]\<rparr> in
      case metrics_fault e (tick w) of Some ex \<Rightarrow> (Inl ex, w') | None \<Rightarrow> (Inr (), w'))"

section \<open>The order processor\<close>

text \<open>
  Calls to the logger are left out: they change nothing the program reads. The one thing
  kept of them is the lookup \<^verbatim>\<open>order['orderId']\<close> inside their f-strings, which can raise.
\<close>

subsection \<open>\<^verbatim>\<open>update_order_status\<close>\<close>

definition update_order_status ::
  "env \<Rightarrow> pyval \<Rightarrow> string \<Rightarrow> pyval \<Rightarrow> string option \<Rightarrow> unit io" where
  "update_order_status e order_id status timestamp error_message =
     py_try
       (py_bind (datetime_utcnow e) (\<lambda>now.
          table_update_item e order_id timestamp
            ([(''status'', PStr status), (''updatedAt'', PStr now)] @
             (case error_message of
                None \<Rightarrow> []
              | Some m \<Rightarrow> if m \<noteq> [] then [(''errorMessage'', PStr m)] else []))))
       (\<lambda>ex. py_return ())"

subsection \<open>\<^verbatim>\<open>send_order_notification\<close> and \<^verbatim>\<open>send_processing_metrics\<close>\<close>

definition build_message ::
  "env \<Rightarrow> pyval \<Rightarrow> string \<Rightarrow> pydict option \<Rightarrow> string option \<Rightarrow> sns_message io" where
  "build_message e order_id event_type order_data error_message =
     (let reason = (case error_message of
                      None \<Rightarrow> None
                    | Some m \<Rightarrow> if m \<noteq> [] then Some m else None);
          data_get = (\<lambda>k dflt. case order_data of
                        None \<Rightarrow> Inl (AttributeError ''NoneType object has no attribute get'')
                      | Some d \<Rightarrow> Inr (py_get d k dflt))
      in
      if event_type = ''COMPLETED'' then
        py_bind (py_lift (data_get ''totalAmount'' (PStr ''Unknown''))) (\<lambda>total_amount.
        py_bind (py_lift (data_get ''customerId'' (PStr ''Unknown''))) (\<lambda>customer_id.
        py_bind (py_lift (data_get ''items'' (PList []))) (\<lambda>items.
        py_bind (py_lift (py_len items)) (\<lambda>item_count.
        py_bind (py_lift (py_slice8 order_id)) (\<lambda>prefix.
        py_bind (datetime_utcnow e) (\<lambda>now.
        py_return (CompletedMsg prefix customer_id item_count total_amount now)))))))
      else if event_type = ''FAILED'' then
        py_bind (py_lift (case order_data of
                            None \<Rightarrow> Inr (PStr ''Unknown'')
                          | Some d \<Rightarrow> if d \<noteq> [] then Inr (py_get d ''customerId'' (PStr ''Unknown''))
                                      else Inr (PStr ''Unknown''))) (\<lambda>customer_id.
        py_bind (py_lift (py_slice8 order_id)) (\<lambda>prefix.
        py_bind (datetime_utcnow e) (\<lambda>now.
        py_return (FailedMsg prefix customer_id reason now))))
      else
        py_bind (py_lift (py_slice8 order_id)) (\<lambda>prefix.
        py_return (OtherMsg prefix event_type reason)))"

definition send_order_notification ::
  "env \<Rightarrow> pyval \<Rightarrow> string \<Rightarrow> pydict option \<Rightarrow> string option \<Rightarrow> unit io" where
  "send_order_notification e order_id event_type order_data error_message =
     (case SNS_TOPIC_ARN e of
        None \<Rightarrow> py_return ()
      | Some arn \<Rightarrow>
          if arn = [] then py_return ()
          else py_try
                 (py_bind (build_message e order_id event_type order_data error_message) (\<lambda>message.
                    sns_publish e arn message (''eCommerce Order '' @ event_type)))
                 (\<lambda>ex. py_return ()))"

definition send_processing_metrics :: "env \<Rightarrow> nat \<Rightarrow> nat \<Rightarrow> unit io" where
  "send_processing_metrics e successful_orders failed_orders =
     py_try
       (py_bind (datetime_utcnow e) (\<lambda>t1.
        py_bind (datetime_utcnow e) (\<lambda>t2.
        cloudwatch_put_metric_data e successful_orders failed_orders)))
       (\<lambda>ex. py_return ())"

subsection \<open>The step executors\<close>

text \<open>
  The loop over the required fields: \<open>Inr False\<close> is the \<^verbatim>\<open>return False\<close> inside it,
  \<open>Inr True\<close> its normal end.
\<close>

fun required_loop :: "pydict \<Rightarrow> string list \<Rightarrow> exn + bool" where
  "required_loop order [] = Inr True"
| "required_loop order (field # more_fields) =
     (if map_of order field = None then Inr False
      else (case py_getitem order field of
              Inl ex \<Rightarrow> Inl ex
            | Inr v \<Rightarrow> if \<not> truthy v then Inr False else required_loop order more_fields))"

definition validate_order :: "env \<Rightarrow> pydict \<Rightarrow> bool io" where
  "validate_order e order =
     py_try
       (py_bind (py_lift (required_loop order [''customerId'', ''items'', ''totalAmount''])) (\<lambda>present.
          if \<not> present then py_return False
          else
            py_bind (py_lift (py_getitem order ''items'')) (\<lambda>items.
              if \<not> is_list items \<or> py_len items = Inr 0 then py_return False
              else
                py_bind (py_lift (py_getitem order ''totalAmount'')) (\<lambda>total_amount.
                py_bind (py_lift (to_float e total_amount)) (\<lambda>total.
                  if float_le total (Fin 0) then py_return False
                  else
                    py_bind (py_lift (py_getitem order ''orderId'')) (\<lambda>order_id.
                    py_return True))))))
       (\<lambda>ex. py_return False)"

text \<open>
  One draw of \<^verbatim>\<open>random.random()\<close> per item. The draws are multiples of \<open>2^-53\<close>, and none
  lies between \<open>1/10\<close> and the double nearest to it (nor between \<open>1/20\<close> and its double), so
  the comparisons are those of the exact fractions.
\<close>

fun inventory_loop :: "env \<Rightarrow> pyval list \<Rightarrow> bool io" where
  "inventory_loop e [] = py_return True"
| "inventory_loop e (item # items) =
     py_bind (random_random e) (\<lambda>r.
       if r < 1 / 10 then
         py_bind (py_lift (py_attr_get item ''productId'' (PStr ''unknown''))) (\<lambda>product_id.
         py_return False)
       else inventory_loop e items)"

definition check_inventory :: "env \<Rightarrow> pydict \<Rightarrow> bool io" where
  "check_inventory e order =
     py_try
       (py_bind (py_lift (py_getitem order ''items'')) (\<lambda>items.
        py_bind (py_lift (py_iter items)) (\<lambda>xs.
        py_bind (inventory_loop e xs) (\<lambda>available.
          if \<not> available then py_return False
          else
            py_bind (py_lift (py_getitem order ''orderId'')) (\<lambda>order_id.
            py_return True)))))
       (\<lambda>ex. py_return False)"

definition process_payment :: "env \<Rightarrow> pydict \<Rightarrow> bool io" where
  "process_payment e order =
     py_try
       (py_bind (py_lift (py_getitem order ''totalAmount'')) (\<lambda>v.
        py_bind (py_lift (to_float e v)) (\<lambda>total_amount.
        py_bind (random_random e) (\<lambda>r.
          if r < 5 / 100 then
            py_bind (py_lift (py_getitem order ''orderId'')) (\<lambda>order_id.
            py_return False)
          else
            py_bind (py_lift (time_sleep (float_min (Fin (1 / 2)) (float_div total_amount 1000)))) (\<lambda>u.
            py_bind (py_lift (py_getitem order ''orderId'')) (\<lambda>order_id.
            py_return True))))))
       (\<lambda>ex. py_return False)"

definition fulfill_order :: "env \<Rightarrow> pydict \<Rightarrow> bool io" where
  "fulfill_order e order =
     py_try
       (py_bind (py_lift (py_getitem order ''items'')) (\<lambda>items.
        py_bind (py_lift (py_len items)) (\<lambda>item_count.
        py_bind (py_lift (time_sleep (float_min (Fin 1) (Fin (of_nat item_count / 10))))) (\<lambda>u.
        py_bind (py_lift (py_getitem order ''orderId'')) (\<lambda>order_id.
        py_return True)))))
       (\<lambda>ex. py_return False)"

subsection \<open>\<^verbatim>\<open>process_order\<close>\<close>

type_synonym executor = "env \<Rightarrow> pydict \<Rightarrow> bool io"

definition processing_steps :: "(string \<times> executor) list" where
  "processing_steps =
     [(''VALIDATING'', validate_order),
      (''INVENTORY_CHECK'', check_inventory),
      (''PAYMENT_PROCESSING'', process_payment),
      (''FULFILLMENT'', fulfill_order)]"

text \<open>The f-string \<^verbatim>\<open>f"Failed at {status}"\<close>.\<close>

definition failed_at :: "string \<Rightarrow> string" where
  "failed_at status = ''Failed at '' @ status"

text \<open>
  The loop over the steps: \<open>Inr False\<close> is the \<^verbatim>\<open>return False\<close> of a failed step,
  \<open>Inr True\<close> the normal end of the loop. \<open>Exec\<close> marks the invocation of an executor.
\<close>

fun run_steps :: "env \<Rightarrow> pyval \<Rightarrow> pydict \<Rightarrow> (string \<times> executor) list \<Rightarrow> bool io" where
  "run_steps e order_id order [] = py_return True"
| "run_steps e order_id order (step # steps) =
     py_bind (py_lift (py_getitem order ''timestamp'')) (\<lambda>ts.
     py_bind (update_order_status e order_id (fst step) ts None) (\<lambda>u.
     py_bind (log_event (Exec (fst step))) (\<lambda>u.
     py_bind (snd step e order) (\<lambda>success.
       if \<not> success then
         py_bind (py_lift (py_getitem order ''timestamp'')) (\<lambda>ts.
         py_bind (update_order_status e order_id ''FAILED'' ts (Some (failed_at (fst step)))) (\<lambda>u.
         py_bind (send_order_notification e order_id ''FAILED'' (Some order)
                    (Some (failed_at (fst step)))) (\<lambda>u.
         py_return False)))
       else
         py_bind (py_lift (time_sleep (Fin (1 / 10)))) (\<lambda>u.
         run_steps e order_id order steps)))))"

text \<open>Lines 97 to 131: the steps, then completion.\<close>

definition run_pipeline :: "env \<Rightarrow> pyval \<Rightarrow> pydict \<Rightarrow> bool io" where
  "run_pipeline e order_id order =
     py_bind (run_steps e order_id order processing_steps) (\<lambda>all_done.
       if \<not> all_done then py_return False
       else
         py_bind (py_lift (py_getitem order ''timestamp'')) (\<lambda>ts.
         py_bind (update_order_status e order_id ''COMPLETED'' ts None) (\<lambda>u.
         py_bind (send_order_notification e order_id ''COMPLETED'' (Some order) None) (\<lambda>u.
         py_return True))))"

text \<open>Lines 90 to 131: what runs once \<^verbatim>\<open>order\<close> is bound.\<close>

definition process_found :: "env \<Rightarrow> pyval \<Rightarrow> pydict \<Rightarrow> bool io" where
  "process_found e order_id order =
     (let current_status = py_get order ''status'' (PStr ''PENDING'') in
      if current_status \<noteq> PStr ''PENDING'' then py_return True
      else run_pipeline e order_id order)"

text \<open>
  The \<^verbatim>\<open>except\<close> block of \<^verbatim>\<open>process_order\<close>. It reads the local variable \<^verbatim>\<open>order\<close>, which is
  bound only once the query has returned an item: \<open>None\<close> is the unbound variable.
\<close>

definition process_order_except :: "env \<Rightarrow> pyval \<Rightarrow> pydict option \<Rightarrow> exn \<Rightarrow> bool io" where
  "process_order_except e order_id order_var ex =
     (case order_var of
        None \<Rightarrow>
          py_lift (Inl (UnboundLocalError
            ''cannot access local variable order where it is not associated with a value''))
      | Some order \<Rightarrow>
          py_bind (update_order_status e order_id ''FAILED''
                     (py_get order ''timestamp'' (PStr [])) (Some (exn_str ex))) (\<lambda>u.
          py_return False))"

text \<open>
  \<^verbatim>\<open>process_order\<close>. Its \<^verbatim>\<open>try\<close> block is split where \<^verbatim>\<open>order\<close> is assigned: a fault of the query
  reaches the \<^verbatim>\<open>except\<close> block with \<^verbatim>\<open>order\<close> unbound, a later fault with \<^verbatim>\<open>order\<close> bound. An
  empty result returns \<^verbatim>\<open>False\<close>.
\<close>

definition process_order :: "env \<Rightarrow> pyval \<Rightarrow> bool io" where
  "process_order e order_id w =
     (case table_query e order_id w of
        (Inl ex, w') \<Rightarrow> process_order_except e order_id None ex w'
      | (Inr items, w') \<Rightarrow>
          (case items of
             [] \<Rightarrow> (Inr False, w')
           | order # others \<Rightarrow>
               py_try (process_found e order_id order)
                 (process_order_except e order_id (Some order)) w'))"

subsection \<open>\<^verbatim>\<open>handler\<close>\<close>

text \<open>Lines 35 to 37: the message body, its order id and its action.\<close>

definition decode_message :: "env \<Rightarrow> pyval \<Rightarrow> exn + pyval \<times> pyval" where
  "decode_message e record =
     (case py_subscript record ''body'' of
        Inl ex \<Rightarrow> Inl ex
      | Inr body \<Rightarrow>
          (case json_loads_py e body of
             Inl ex \<Rightarrow> Inl ex
           | Inr message_body \<Rightarrow>
               (case py_subscript message_body ''orderId'' of
                  Inl ex \<Rightarrow> Inl ex
                | Inr order_id \<Rightarrow>
                    (case py_subscript message_body ''action'' of
                       Inl ex \<Rightarrow> Inl ex
                     | Inr action \<Rightarrow> Inr (order_id, action)))))"

text \<open>One pass of the loop over the records, on the two lists built so far.\<close>

definition handle_record ::
  "env \<Rightarrow> pyval \<Rightarrow> pyval list \<times> pyval list \<Rightarrow> (pyval list \<times> pyval list) io" where
  "handle_record e record acc =
     py_try
       (py_bind (py_lift (decode_message e record)) (\<lambda>msg.
          if snd msg = PStr ''PROCESS_ORDER'' then
            py_bind (process_order e (fst msg)) (\<lambda>result.
              if result then py_return (fst acc @ [fst msg], snd acc)
              else py_return (fst acc, snd acc @ [fst msg]))
          else py_return (fst acc, snd acc @ [fst msg])))
       (\<lambda>ex.
          py_bind (py_lift (py_attr_get record ''messageId'' (PStr ''unknown''))) (\<lambda>message_id.
          py_return (fst acc, snd acc @ [message_id])))"

fun records_loop ::
  "env \<Rightarrow> pyval list \<Rightarrow> pyval list \<times> pyval list \<Rightarrow> (pyval list \<times> pyval list) io" where
  "records_loop e [] acc = py_return acc"
| "records_loop e (record # records) acc =
     py_bind (handle_record e record acc) (\<lambda>acc'. records_loop e records acc')"

datatype response = Response200 "pyval list" "pyval list" | Response500 string

definition handler :: "env \<Rightarrow> pyval \<Rightarrow> world \<Rightarrow> response \<times> world" where
  "handler e event w =
     (case py_bind (py_lift (py_subscript event ''Records'')) (\<lambda>records.
           py_bind (py_lift (py_iter records)) (\<lambda>rs.
           py_bind (records_loop e rs ([], [])) (\<lambda>acc.
           py_bind (send_processing_metrics e (length (fst acc)) (length (snd acc))) (\<lambda>u.
           py_return (Response200 (fst acc) (snd acc)))))) w of
        (Inl ex, w') \<Rightarrow> (Response500 (exn_str ex), w')
      | (Inr r, w') \<Rightarrow> (r, w'))"

section \<open>Sample inputs\<close>

text \<open>
  The order of the specification's example scenario, an environment in which no service
  faults and every draw of \<^verbatim>\<open>random.random()\<close> is \<open>1/2\<close> (no shortage, no declined payment),
  and a queue message naming the order.
\<close>

definition sample_attrs :: pydict where
  "sample_attrs =
     [(''customerId'', PStr ''c1''),
      (''items'', PList [PDict [(''productId'', PStr ''X''), (''quantity'', PNum 1), (''unitPrice'', PNum 10)]]),
      (''totalAmount'', PNum 10),
      (''status'', PStr ''PENDING'')]"

definition sample_env :: env where
  "sample_env =
     \<lparr>SNS_TOPIC_ARN = Some ''arn:orders'',
      float_of_str = (\<lambda>s. None),
      json_loads = (\<lambda>s. if s = ''m1''
                          then Some (PDict [(''orderId'', PStr ''o1''), (''action'', PStr ''PROCESS_ORDER'')])
                          else if s = ''m2''
                          then Some (PDict [(''orderId'', PStr ''o2''), (''action'', PStr ''CANCEL_ORDER'')])
                          else None),
      random = (\<lambda>n. 1 / 2),
      utcnow = (\<lambda>n. ''now''),
      query_fault = (\<lambda>n. None),
      update_fault = (\<lambda>n. None),
      publish_fault = (\<lambda>n. None),
      metrics_fault = (\<lambda>n. None)\<rparr>"

definition sample_world :: world where
  "sample_world = \<lparr>table = [((''o1'', ''t1''), sample_attrs)], trace = [], tick = 0\<rparr>"

definition sqs_record :: "string \<Rightarrow> string \<Rightarrow> pyval" where
  "sqs_record message_id body = PDict [(''messageId'', PStr message_id), (''body'', PStr body)]"

definition completed_attrs :: pydict where
  "completed_attrs =
     [(''customerId'', PStr ''c1''),
      (''items'', PList [PDict [(''productId'', PStr ''X''), (''quantity'', PNum 1), (''unitPrice'', PNum 10)]]),
      (''totalAmount'', PNum 10),
      (''status'', PStr ''COMPLETED'')]"

definition completed_world :: world where
  "completed_world = \<lparr>table = [((''o1'', ''t1''), completed_attrs)], trace = [], tick = 0\<rparr>"

text \<open>Two records of one order id: the older one completed, the newer one pending.\<close>

definition two_record_world :: world where
  "two_record_world =
     \<lparr>table = [((''o1'', ''2024-01-01T10:00:00''), completed_attrs),
               ((''o1'', ''2024-01-02T10:00:00''), sample_attrs)],
      trace = [], tick = 0\<rparr>"

text \<open>The sample order as the table returns it, and the same order with a negative total.\<close>

definition sample_order :: pydict where
  "sample_order = item_of ((''o1'', ''t1''), sample_attrs)"

definition negative_total_attrs :: pydict where
  "negative_total_attrs =
     [(''customerId'', PStr ''c1''),
      (''items'', PList [PDict [(''productId'', PStr ''X''), (''quantity'', PNum 1), (''unitPrice'', PNum 10)]]),
      (''totalAmount'', PNum (- 5)),
      (''status'', PStr ''PENDING'')]"

definition negative_total_order :: pydict where
  "negative_total_order = item_of ((''o1'', ''t1''), negative_total_attrs)"

definition negative_total_world :: world where
  "negative_total_world = \<lparr>table = [((''o1'', ''t1''), negative_total_attrs)], trace = [], tick = 0\<rparr>"

text \<open>
  The sample order with the total \<^verbatim>\<open>Decimal('1E-330')\<close>: positive, and below half of the smallest
  positive double.
\<close>

definition tiny_total_attrs :: pydict where
  "tiny_total_attrs =
     [(''customerId'', PStr ''c1''),
      (''items'', PList [PDict [(''productId'', PStr ''X''), (''quantity'', PNum 1), (''unitPrice'', PNum 10)]]),
      (''totalAmount'', PNum (1 / 10 ^ 330)),
      (''status'', PStr ''PENDING'')]"

definition tiny_total_order :: pydict where
  "tiny_total_order = item_of ((''o1'', ''t1''), tiny_total_attrs)"

text \<open>A batch that delivers the message of order \<open>o1\<close> twice, and a store that rejects every write.\<close>

definition duplicate_event :: pyval where
  "duplicate_event = PDict [(''Records'', PList [sqs_record ''a'' ''m1'', sqs_record ''b'' ''m1''])]"

definition rejecting_env :: env where
  "rejecting_env =
     sample_env\<lparr>update_fault := (\<lambda>n. Some (ClientError ''ProvisionedThroughputExceededException''))\<rparr>"

text \<open>The sample order stored without a \<^verbatim>\<open>status\<close> attribute.\<close>

definition no_status_attrs :: pydict where
  "no_status_attrs =
     [(''customerId'', PStr ''c1''),
      (''items'', PList [PDict [(''productId'', PStr ''X''), (''quantity'', PNum 1), (''unitPrice'', PNum 10)]]),
      (''totalAmount'', PNum 10)]"

definition no_status_world :: world where
  "no_status_world = \<lparr>table = [((''o1'', ''t1''), no_status_attrs)], trace = [], tick = 0\<rparr>"

text \<open>
  A batch of three messages: one for the completed order \<open>o1\<close>, one with an unknown
  action, one whose body is not JSON.
\<close>

definition sample_records :: "pyval list" where
  "sample_records = [sqs_record ''a'' ''m1'', sqs_record ''b'' ''m2'', sqs_record ''c'' ''m3'']"

definition sample_event :: pyval where
  "sample_event = PDict [(''Records'', PList sample_records)]"

text \<open>
  The sample environment with the payment declined: the ninth interaction with the outside
  (tick 8) is the draw of \<^verbatim>\<open>process_payment\<close>, and it is below \<open>1/20\<close>.
\<close>

definition declined_env :: env where
  "declined_env = sample_env\<lparr>random := (\<lambda>n. if n = 8 then 1 / 100 else 1 / 2)\<rparr>"

text \<open>The sample environment with no topic configured, and the same with a rejecting store.\<close>

definition quiet_env :: env where
  "quiet_env = sample_env\<lparr>SNS_TOPIC_ARN := None\<rparr>"

definition quiet_rejecting_env :: env where
  "quiet_rejecting_env =
     quiet_env\<lparr>update_fault := (\<lambda>n. Some (ClientError ''ProvisionedThroughputExceededException''))\<rparr>"

section \<open>Notions used in the statements\<close>

text \<open>
  \<open>emits m P\<close>: running \<open>m\<close> only appends to the trace, and what it appends satisfies \<open>P\<close>.
\<close>

definition emits :: "'a io \<Rightarrow> (event list \<Rightarrow> bool) \<Rightarrow> bool" where
  "emits m P = (\<forall>w. \<exists>tr. trace (snd (m w)) = trace w @ tr \<and> P tr)"

text \<open>
  \<open>ordered_trace oid tr\<close>: every \<open>Exec nm\<close> in \<open>tr\<close> comes right after an \<open>UpdateItem\<close> on
  order \<open>oid\<close> whose first assignment sets \<^verbatim>\<open>status\<close> to \<open>nm\<close>.
\<close>

fun sets_status :: "pydict \<Rightarrow> string \<Rightarrow> bool" where
  "sets_status [] nm = False"
| "sets_status (kv # rest) nm = (kv = (''status'', PStr nm))"

fun ordered_trace :: "pyval \<Rightarrow> event list \<Rightarrow> bool" where
  "ordered_trace oid [] = True"
| "ordered_trace oid (Exec nm # tr) = False"
| "ordered_trace oid (UpdateItem k ts assigns # Exec nm # tr) =
     (k = oid \<and> sets_status assigns nm \<and> ordered_trace oid tr)"
| "ordered_trace oid (ev # tr) = ordered_trace oid tr"

text \<open>The assignments of a status update.\<close>

definition status_assigns :: "string \<Rightarrow> string \<Rightarrow> string option \<Rightarrow> pydict" where
  "status_assigns status now error_message =
     [(''status'', PStr status), (''updatedAt'', PStr now)] @
     (case error_message of
        None \<Rightarrow> []
      | Some m \<Rightarrow> if m \<noteq> [] then [(''errorMessage'', PStr m)] else [])"

text \<open>\<open>preserves g m\<close>: running \<open>m\<close> leaves the component \<open>g\<close> of the world as it was.\<close>

definition preserves :: "(world \<Rightarrow> 'b) \<Rightarrow> 'a io \<Rightarrow> bool" where
  "preserves g m = (\<forall>w. g (snd (m w)) = g w)"

text \<open>\<open>total m\<close>: \<open>m\<close> never raises.\<close>

definition total :: "'a io \<Rightarrow> bool" where
  "total m = (\<forall>w. \<exists>x. fst (m w) = Inr x)"

text \<open>The outcome of a loop over records, with \<open>p\<close> and \<open>f\<close> put in front of its two lists.\<close>

definition shift_acc ::
  "pyval list \<Rightarrow> pyval list \<Rightarrow> (exn + pyval list \<times> pyval list) \<times> world
     \<Rightarrow> (exn + pyval list \<times> pyval list) \<times> world" where
  "shift_acc p f res =
     (case res of
        (Inl ex, w') \<Rightarrow> (Inl ex, w')
      | (Inr acc, w') \<Rightarrow> (Inr (p @ fst acc, f @ snd acc), w'))"

text \<open>
  \<open>same_but_faults e e'\<close>: the two environments differ at most in whether the status
  writes, the notifications and the metrics fault.
\<close>

definition same_but_faults :: "env \<Rightarrow> env \<Rightarrow> bool" where
  "same_but_faults e e' =
     (SNS_TOPIC_ARN e' = SNS_TOPIC_ARN e \<and> float_of_str e' = float_of_str e
      \<and> json_loads e' = json_loads e \<and> random e' = random e \<and> utcnow e' = utcnow e
      \<and> query_fault e' = query_fault e)"

text \<open>
  \<open>agree S w1 w2\<close>: the two worlds have the same clock and trace, and the same records for
  every order id outside \<open>S\<close>. \<open>corr S m m'\<close>: from worlds that agree, \<open>m\<close> and \<open>m'\<close> give the
  same result and worlds that agree.
\<close>

definition agree :: "string set \<Rightarrow> world \<Rightarrow> world \<Rightarrow> bool" where
  "agree S w1 w2 =
     (tick w1 = tick w2 \<and> trace w1 = trace w2
      \<and> (\<forall>oid. oid \<notin> S \<longrightarrow>
            filter (\<lambda>r. fst (fst r) = oid) (table w1) = filter (\<lambda>r. fst (fst r) = oid) (table w2)))"

definition corr :: "string set \<Rightarrow> 'a io \<Rightarrow> 'a io \<Rightarrow> bool" where
  "corr S m m' =
     (\<forall>w1 w2. agree S w1 w2 \<longrightarrow> fst (m w1) = fst (m' w2) \<and> agree S (snd (m w1)) (snd (m' w2)))"

text \<open>The order ids that a batch hands to \<^verbatim>\<open>process_order\<close>.\<close>

definition dispatch_id :: "env \<Rightarrow> pyval \<Rightarrow> string option" where
  "dispatch_id e record =
     (case decode_message e record of
        Inl ex \<Rightarrow> None
      | Inr msg \<Rightarrow>
          (case fst msg of
             PStr oid \<Rightarrow> if snd msg = PStr ''PROCESS_ORDER'' then Some oid else None
           | _ \<Rightarrow> None))"

definition dispatched_ids :: "env \<Rightarrow> pyval \<Rightarrow> string list" where
  "dispatched_ids e event =
     (case py_subscript event ''Records'' of
        Inl ex \<Rightarrow> []
      | Inr records \<Rightarrow>
          (case py_iter records of
             Inl ex \<Rightarrow> []
           | Inr rs \<Rightarrow> List.map_filter (dispatch_id e) rs))"

section \<open>Facts about the services\<close>

lemmas io_defs =
  py_try_def py_bind_def py_lift_def py_return_def log_event_def datetime_utcnow_def random_random_def

lemma table_query_found:
  "oid \<noteq> [] \<Longrightarrow> query_fault e (tick w) = None \<Longrightarrow>
   table_query e (PStr oid) w =
     (Inr (query_items oid (table w)), w\<lparr>tick := Suc (tick w), trace := trace w @ [Query (PStr oid)]\<rparr>)"
  by (simp add: table_query_def Let_def)

subsection \<open>Rounding to a double\<close>

lemma bit_length_bounds: "0 < n \<Longrightarrow> 2 ^ (bit_length n - 1) \<le> n \<and> n < 2 ^ bit_length n"
proof (induction n rule: bit_length.induct)
  case (1 n)
  from 1(2) have n0: "\<not> n \<le> 0" by simp
  have bl: "bit_length n = Suc (bit_length (n div 2))" using n0 by (subst bit_length.simps) simp
  show ?case
  proof (cases "n div 2 = 0")
    case True
    with 1(2) have "n = 1" by presburger
    then show ?thesis by (simp add: bit_length.simps)
  next
    case False
    with 1(2) have pos: "0 < n div 2" by presburger
    from 1(1) [OF n0 pos] have lo: "2 ^ (bit_length (n div 2) - 1) \<le> n div 2"
      and hi: "n div 2 < 2 ^ bit_length (n div 2)" by simp_all
    have blpos: "0 < bit_length (n div 2)" using pos by (subst bit_length.simps) simp
    then obtain k where k: "bit_length (n div 2) = Suc k" by (cases "bit_length (n div 2)") auto
    from lo k have "2 * 2 ^ k \<le> 2 * (n div 2)" by simp
    also have "\<dots> \<le> n" by presburger
    finally have a: "2 ^ (bit_length n - 1) \<le> n" by (simp add: bl k)
    from hi have "n div 2 + 1 \<le> 2 ^ bit_length (n div 2)" by simp
    then have "2 * (n div 2 + 1) \<le> 2 * 2 ^ bit_length (n div 2)" by simp
    moreover have "n < 2 * (n div 2 + 1)" by presburger
    ultimately have b: "n < 2 ^ bit_length n" by (simp add: bl)
    from a b show ?thesis by simp
  qed
qed

lemma floor_log2_le:
  assumes "0 < a"
  shows "power_int 2 (floor_log2 a) \<le> a"
proof -
  obtain p q where pq: "quotient_of a = (p, q)" by (cases "quotient_of a")
  have q: "0 < q" using pq by (rule quotient_of_denom_pos)
  have a: "a = of_int p / of_int q" using pq by (rule quotient_of_div)
  have p: "0 < p" using assms q unfolding a by (simp add: zero_less_divide_iff)
  define c where "c = int (bit_length p) - int (bit_length q)"
  have fl: "floor_log2 a = (if power_int 2 c \<le> a then c else c - 1)"
    by (simp add: floor_log2_def pq c_def Let_def)
  have lo: "(2::int) ^ (bit_length p - 1) \<le> p" using bit_length_bounds [OF p] by simp
  have hi: "q < (2::int) ^ bit_length q" using bit_length_bounds [OF q] by simp
  have blp: "0 < bit_length p" using p by (subst bit_length.simps) simp
  have lo': "(2::rat) ^ (bit_length p - 1) \<le> of_int p"
    using lo by (metis of_int_le_iff of_int_numeral of_int_power)
  have hi': "of_int q \<le> (2::rat) ^ bit_length q"
    using hi by (metis less_imp_le of_int_le_iff of_int_numeral of_int_power)
  have c1: "c - 1 = int (bit_length p - 1) - int (bit_length q)" using blp by (simp add: c_def)
  have "power_int (2::rat) (c - 1) = 2 ^ (bit_length p - 1) / 2 ^ bit_length q"
    unfolding c1 by (simp add: power_int_diff)
  also have "\<dots> \<le> of_int p / 2 ^ bit_length q"
    using lo' by (simp add: divide_right_mono)
  also have "\<dots> \<le> of_int p / of_int q"
    using hi' p q by (simp add: divide_left_mono)
  finally have "power_int 2 (c - 1) \<le> a" unfolding a .
  then show ?thesis unfolding fl by simp
qed

lemma round_half_even_cases:
  "round_half_even y = \<lfloor>y\<rfloor> \<or> round_half_even y = \<lfloor>y\<rfloor> + 1"
  by (simp add: round_half_even_def Let_def)

lemma round_half_even_le_zero: "round_half_even y \<le> 0 \<longleftrightarrow> y \<le> 1 / 2"
proof (cases "\<lfloor>y\<rfloor> = 0")
  case True
  then show ?thesis by (simp add: round_half_even_def Let_def)
next
  case False
  show ?thesis
  proof (cases "\<lfloor>y\<rfloor> < 0")
    case True
    then have "y < 0" by (simp add: floor_less_iff)
    then have a: "y \<le> 1 / 2" by simp
    from True have "\<lfloor>y\<rfloor> + 1 \<le> 0" by linarith
    with round_half_even_cases [of y] have "round_half_even y \<le> 0" by linarith
    with a show ?thesis by (simp only:)
  next
    case False
    with \<open>\<lfloor>y\<rfloor> \<noteq> 0\<close> have f: "1 \<le> \<lfloor>y\<rfloor>" by linarith
    then have "1 \<le> y" by (simp add: le_floor_iff)
    then have a: "\<not> y \<le> 1 / 2" by simp
    from f round_half_even_cases [of y] have "\<not> round_half_even y \<le> 0" by linarith
    with a show ?thesis by (simp only:)
  qed
qed

lemma round_half_even_nonneg: "0 \<le> y \<Longrightarrow> 0 \<le> round_half_even y"
  by (simp add: round_half_even_def Let_def)

lemma round_double_nonneg:
  assumes "0 \<le> x"
  shows "round_double x = PosInf \<or> (\<exists>r\<ge>0. round_double x = Fin r)"
proof (cases "x = 0")
  case True
  then show ?thesis by (simp add: round_double_def)
next
  case False
  with assms have x: "0 < x" by simp
  define q where "q = power_int (2::rat) (max (floor_log2 \<bar>x\<bar>) (- 1022) - 52)"
  have q: "0 < q" by (simp add: q_def)
  have "0 \<le> \<bar>x\<bar> / q" using q by simp
  then have "0 \<le> round_half_even (\<bar>x\<bar> / q)" by (rule round_half_even_nonneg)
  then have "0 \<le> of_int (round_half_even (\<bar>x\<bar> / q)) * q" using q by simp
  then show ?thesis using x by (simp add: round_double_def Let_def q_def)
qed

lemma pow2_m1075: "power_int (2::rat) (- 1075) = 1 / 2 ^ 1075"
  by (simp add: power_int_minus_divide)

lemma round_double_le_zero: "float_le (round_double d) (Fin 0) \<longleftrightarrow> d \<le> 1 / 2 ^ 1075"
proof (cases "0 < d")
  case False
  define q where "q = power_int (2::rat) (max (floor_log2 \<bar>d\<bar>) (- 1022) - 52)"
  have q: "0 < q" by (simp add: q_def)
  have "0 \<le> \<bar>d\<bar> / q" using q by simp
  then have "0 \<le> round_half_even (\<bar>d\<bar> / q)" by (rule round_half_even_nonneg)
  then have "0 \<le> of_int (round_half_even (\<bar>d\<bar> / q)) * q" using q by simp
  moreover have "d \<le> 1 / 2 ^ 1075" using False by (simp add: order_trans [of d 0])
  ultimately show ?thesis using False by (simp add: round_double_def Let_def q_def)
next
  case True
  define e where "e = max (floor_log2 d) (- 1022)"
  define q where "q = power_int (2::rat) (e - 52)"
  define n where "n = round_half_even (d / q)"
  have q: "0 < q" by (simp add: q_def)
  have rd: "round_double d = (if power_int 2 1024 \<le> of_int n * q then PosInf else Fin (of_int n * q))"
    using True by (simp add: round_double_def Let_def e_def q_def n_def)
  have n0: "0 \<le> n" unfolding n_def using True q by (intro round_half_even_nonneg) simp
  have half: "n \<le> 0 \<longleftrightarrow> d \<le> q / 2"
    unfolding n_def round_half_even_le_zero using q by (simp add: field_simps)
  have q2: "q / 2 = power_int 2 (e - 53)" by (simp add: q_def power_int_diff)
  have iff: "d \<le> q / 2 \<longleftrightarrow> d \<le> 1 / 2 ^ 1075"
  proof (cases "floor_log2 d \<le> - 1022")
    case True
    then have "e - 53 = - 1075" by (simp add: e_def)
    then have "q / 2 = 1 / 2 ^ 1075" unfolding q2 by (simp only: pow2_m1075)
    then show ?thesis by (simp only:)
  next
    case False
    then have e: "e = floor_log2 d" "- 1022 < e" by (simp_all add: e_def)
    have le: "power_int 2 e \<le> d" unfolding e using \<open>0 < d\<close> by (rule floor_log2_le)
    have "power_int (2::rat) (e - 53) < power_int 2 e" by (rule power_int_strict_increasing) simp_all
    then have a: "q / 2 < d" using le unfolding q2 by (rule less_le_trans)
    have "power_int (2::rat) (- 1075) < power_int 2 e" using e by (intro power_int_strict_increasing) simp_all
    then have b: "1 / 2 ^ 1075 < d" using le unfolding pow2_m1075 by (rule less_le_trans)
    from a b show ?thesis by simp
  qed
  show ?thesis
  proof (cases "n = 0")
    case True
    with half iff show ?thesis by (simp add: rd)
  next
    case False
    with n0 have "0 < n" by simp
    then have "0 < of_int n * q" using q by simp
    moreover from \<open>0 < n\<close> half iff have "\<not> d \<le> 1 / 2 ^ 1075" by simp
    ultimately show ?thesis by (simp add: rd)
  qed
qed

text \<open>The sleeps of the executors never fail on a total that is not negative.\<close>

lemma time_sleep_Fin:
  "time_sleep (Fin a) = (if a < 0 then Inl (ValueError ''sleep length must be non-negative'') else Inr ())"
  by (simp add: time_sleep_def)

lemma time_sleep_min_Fin:
  "time_sleep (float_min (Fin a) (Fin b)) =
     (if a < 0 \<or> b < 0 then Inl (ValueError ''sleep length must be non-negative'') else Inr ())"
  by (simp add: time_sleep_def float_min_def)

lemma payment_sleep:
  assumes "0 \<le> d"
  shows "time_sleep (float_min (Fin (1 / 2)) (float_div (round_double d) 1000)) = Inr ()"
proof -
  from round_double_nonneg [OF assms] show ?thesis
  proof
    assume "round_double d = PosInf"
    then show ?thesis by (simp add: time_sleep_def float_min_def)
  next
    assume "\<exists>r\<ge>0. round_double d = Fin r"
    then obtain r where r: "0 \<le> r" "round_double d = Fin r" by blast
    then have "0 \<le> r / 1000" by simp
    from round_double_nonneg [OF this] show ?thesis
      by (auto simp: r time_sleep_def float_min_def)
  qed
qed

subsection \<open>update_order_status\<close>

lemma update_order_status_fst [simp]:
  "fst (update_order_status e oid st ts em w) = Inr ()"
  by (simp add: update_order_status_def io_defs table_update_item_def Let_def
           split: pyval.splits option.splits)

lemma update_order_status_trace [simp]:
  "trace (snd (update_order_status e oid st ts em w)) =
     trace w @ [UpdateItem oid ts (status_assigns st (utcnow e (tick w)) em)]"
  by (simp add: update_order_status_def io_defs table_update_item_def Let_def status_assigns_def
           split: pyval.splits option.splits)

lemma update_order_status_tick [simp]:
  "tick (snd (update_order_status e oid st ts em w)) = Suc (Suc (tick w))"
  by (simp add: update_order_status_def io_defs table_update_item_def Let_def
           split: pyval.splits option.splits)

lemma update_order_status_table:
  "oid \<noteq> [] \<Longrightarrow> ts \<noteq> [] \<Longrightarrow> update_fault e (Suc (tick w)) = None \<Longrightarrow>
   table (snd (update_order_status e (PStr oid) st (PStr ts) em w)) =
     put_attrs (oid, ts) (status_assigns st (utcnow e (tick w)) em) (table w)"
  by (simp add: update_order_status_def io_defs table_update_item_def Let_def status_assigns_def)

lemma update_order_status_eq:
  "update_order_status e oid st ts em w = (Inr (), snd (update_order_status e oid st ts em w))"
  by (metis update_order_status_fst prod.collapse)

subsection \<open>Frame rules\<close>

lemma preserves_return: "preserves g (py_return x)"
  by (simp add: preserves_def py_return_def)

lemma preserves_lift: "preserves g (py_lift r)"
  by (simp add: preserves_def py_lift_def)

lemma preserves_bind:
  "preserves g m \<Longrightarrow> (\<And>x. preserves g (f x)) \<Longrightarrow> preserves g (py_bind m f)"
  unfolding preserves_def py_bind_def
  by (auto split: prod.splits sum.splits) (metis snd_conv)+

lemma preserves_try:
  "preserves g m \<Longrightarrow> (\<And>ex. preserves g (h ex)) \<Longrightarrow> preserves g (py_try m h)"
  unfolding preserves_def py_try_def
  by (auto split: prod.splits sum.splits) (metis snd_conv)+

lemma preserves_utcnow_trace: "preserves trace (datetime_utcnow e)"
  by (simp add: preserves_def datetime_utcnow_def)

lemma preserves_utcnow_table: "preserves table (datetime_utcnow e)"
  by (simp add: preserves_def datetime_utcnow_def)

lemma preserves_random_trace: "preserves trace (random_random e)"
  by (simp add: preserves_def random_random_def)

lemma preserves_random_table: "preserves table (random_random e)"
  by (simp add: preserves_def random_random_def)

lemmas preserves_intros =
  preserves_return preserves_lift preserves_bind preserves_try
  preserves_utcnow_trace preserves_utcnow_table preserves_random_trace preserves_random_table

lemma total_try_return: "total (py_try m (\<lambda>ex. py_return c))"
  by (simp add: total_def py_try_def py_return_def split: prod.splits sum.splits)

lemma total_fst: "total m \<Longrightarrow> \<exists>x. fst (m w) = Inr x"
  by (simp add: total_def)

lemma preservesD: "preserves g m \<Longrightarrow> g (snd (m w)) = g w"
  by (simp add: preserves_def)

subsection \<open>The executors\<close>

lemma inventory_loop_trace: "preserves trace (inventory_loop e xs)"
  by (induction xs) (auto intro!: preserves_intros)

lemma inventory_loop_table: "preserves table (inventory_loop e xs)"
  by (induction xs) (auto intro!: preserves_intros)

lemma validate_order_total: "total (validate_order e order)"
  unfolding validate_order_def by (rule total_try_return)

lemma check_inventory_total: "total (check_inventory e order)"
  unfolding check_inventory_def by (rule total_try_return)

lemma process_payment_total: "total (process_payment e order)"
  unfolding process_payment_def by (rule total_try_return)

lemma fulfill_order_total: "total (fulfill_order e order)"
  unfolding fulfill_order_def by (rule total_try_return)

lemma validate_order_trace: "preserves trace (validate_order e order)"
  unfolding validate_order_def by (auto intro!: preserves_intros)

lemma validate_order_table: "preserves table (validate_order e order)"
  unfolding validate_order_def by (auto intro!: preserves_intros)

lemma check_inventory_trace: "preserves trace (check_inventory e order)"
  unfolding check_inventory_def by (auto intro!: preserves_intros inventory_loop_trace)

lemma check_inventory_table: "preserves table (check_inventory e order)"
  unfolding check_inventory_def by (auto intro!: preserves_intros inventory_loop_table)

lemma process_payment_trace: "preserves trace (process_payment e order)"
  unfolding process_payment_def by (auto intro!: preserves_intros)

lemma process_payment_table: "preserves table (process_payment e order)"
  unfolding process_payment_def by (auto intro!: preserves_intros)

lemma fulfill_order_trace: "preserves trace (fulfill_order e order)"
  unfolding fulfill_order_def by (auto intro!: preserves_intros)

lemma fulfill_order_table: "preserves table (fulfill_order e order)"
  unfolding fulfill_order_def by (auto intro!: preserves_intros)

lemma executors_total: "step \<in> set processing_steps \<Longrightarrow> total (snd step e order)"
  by (auto simp: processing_steps_def validate_order_total check_inventory_total
        process_payment_total fulfill_order_total)

lemma executors_trace: "step \<in> set processing_steps \<Longrightarrow> preserves trace (snd step e order)"
  by (auto simp: processing_steps_def validate_order_trace check_inventory_trace
        process_payment_trace fulfill_order_trace)

lemma executors_table: "step \<in> set processing_steps \<Longrightarrow> preserves table (snd step e order)"
  by (auto simp: processing_steps_def validate_order_table check_inventory_table
        process_payment_table fulfill_order_table)

subsection \<open>The notification and the metrics\<close>

lemma send_order_notification_total: "total (send_order_notification e oid ev od em)"
  unfolding send_order_notification_def
  by (auto simp: total_try_return split: option.splits) (simp_all add: total_def py_return_def)

lemma send_order_notification_fst [simp]:
  "fst (send_order_notification e oid ev od em w) = Inr ()"
  using total_fst [OF send_order_notification_total] by simp

lemma build_message_table: "preserves table (build_message e oid ev od em)"
  unfolding build_message_def Let_def by (auto intro!: preserves_intros)

lemma sns_publish_table: "preserves table (sns_publish e arn msg subj)"
  by (simp add: preserves_def sns_publish_def Let_def split: option.splits)

lemma send_order_notification_table: "preserves table (send_order_notification e oid ev od em)"
  unfolding send_order_notification_def
  by (auto intro!: preserves_intros build_message_table sns_publish_table split: option.splits)

lemma send_order_notification_unconfigured:
  "SNS_TOPIC_ARN e = None \<or> SNS_TOPIC_ARN e = Some [] \<Longrightarrow>
   send_order_notification e oid ev od em w = (Inr (), w)"
  by (auto simp: send_order_notification_def py_return_def)

lemma send_processing_metrics_total: "total (send_processing_metrics e s f)"
  unfolding send_processing_metrics_def by (rule total_try_return)

lemma send_processing_metrics_fst [simp]:
  "fst (send_processing_metrics e s f w) = Inr ()"
  using total_fst [OF send_processing_metrics_total] by simp

lemma send_failed_notification_trace:
  assumes "order \<noteq> []"
  shows "trace (snd (send_order_notification e (PStr oid) ''FAILED'' (Some order) (Some (c # m)) w)) =
     trace w @
     (case SNS_TOPIC_ARN e of
        None \<Rightarrow> []
      | Some arn \<Rightarrow>
          if arn = [] then []
          else [Publish arn
                  (FailedMsg (PStr (take 8 oid)) (py_get order ''customerId'' (PStr ''Unknown''))
                     (Some (c # m)) (utcnow e (tick w)))
                  ''eCommerce Order FAILED''])"
  using assms
  by (simp add: send_order_notification_def build_message_def sns_publish_def io_defs Let_def
           split: option.splits)

subsection \<open>What the operations append to the trace\<close>

lemma emits_return: "P [] \<Longrightarrow> emits (py_return x) P"
  by (simp add: emits_def py_return_def)

lemma emits_lift: "P [] \<Longrightarrow> emits (py_lift r) P"
  by (simp add: emits_def py_lift_def)

lemma emits_preserves: "preserves trace m \<Longrightarrow> P [] \<Longrightarrow> emits m P"
  by (simp add: emits_def preserves_def)

lemma emits_weaken: "emits m P \<Longrightarrow> (\<And>tr. P tr \<Longrightarrow> Q tr) \<Longrightarrow> emits m Q"
  unfolding emits_def by blast

lemma emits_bind:
  assumes m: "emits m P" and f: "\<And>x. emits (f x) P"
    and app: "\<And>a b. P a \<Longrightarrow> P b \<Longrightarrow> P (a @ b)"
  shows "emits (py_bind m f) P"
  unfolding emits_def
proof
  fix w
  obtain r w1 where mw: "m w = (r, w1)" by (cases "m w")
  from m obtain a where a: "trace w1 = trace w @ a" "P a"
    unfolding emits_def using mw by (metis snd_conv)
  show "\<exists>tr. trace (snd (py_bind m f w)) = trace w @ tr \<and> P tr"
  proof (cases r)
    case (Inl ex)
    with mw a show ?thesis by (auto simp: py_bind_def)
  next
    case (Inr x)
    from f [of x] obtain b where b: "trace (snd (f x w1)) = trace w1 @ b" "P b"
      unfolding emits_def by blast
    with mw a Inr app [OF a(2) b(2)] show ?thesis by (auto simp: py_bind_def)
  qed
qed

lemma emits_try:
  assumes m: "emits m P" and h: "\<And>ex. emits (h ex) P"
    and app: "\<And>a b. P a \<Longrightarrow> P b \<Longrightarrow> P (a @ b)"
  shows "emits (py_try m h) P"
  unfolding emits_def
proof
  fix w
  obtain r w1 where mw: "m w = (r, w1)" by (cases "m w")
  from m obtain a where a: "trace w1 = trace w @ a" "P a"
    unfolding emits_def using mw by (metis snd_conv)
  show "\<exists>tr. trace (snd (py_try m h w)) = trace w @ tr \<and> P tr"
  proof (cases r)
    case (Inr x)
    with mw a show ?thesis by (auto simp: py_try_def)
  next
    case (Inl ex)
    from h [of ex] obtain b where b: "trace (snd (h ex w1)) = trace w1 @ b" "P b"
      unfolding emits_def by blast
    with mw a Inl app [OF a(2) b(2)] show ?thesis by (auto simp: py_try_def)
  qed
qed

lemma ordered_trace_cons_update:
  "ordered_trace oid b \<Longrightarrow> ordered_trace oid (UpdateItem k ts assigns # b)"
proof (cases b)
  case Nil
  then show ?thesis by simp
next
  case (Cons ev tr)
  assume "ordered_trace oid b"
  with Cons show ?thesis by (cases ev) simp_all
qed

lemma ordered_trace_append:
  "ordered_trace oid a \<Longrightarrow> ordered_trace oid b \<Longrightarrow> ordered_trace oid (a @ b)"
  by (induction oid a rule: ordered_trace.induct) (simp_all add: ordered_trace_cons_update)

subsection \<open>The trace of \<^verbatim>\<open>process_order\<close>\<close>

lemma update_order_status_ordered: "emits (update_order_status e oid st ts em) (ordered_trace k)"
  by (simp add: emits_def)

lemma sns_publish_trace:
  "trace (snd (sns_publish e arn msg subj w)) = trace w @ [Publish arn msg subj]"
  by (simp add: sns_publish_def Let_def split: option.splits)

lemma build_message_trace: "preserves trace (build_message e oid ev od em)"
  unfolding build_message_def Let_def by (auto intro!: preserves_intros)

lemma send_order_notification_emits:
  "emits (send_order_notification e oid ev od em) (\<lambda>tr. tr = [] \<or> (\<exists>arn msg subj. tr = [Publish arn msg subj]))"
  unfolding emits_def
proof
  fix w
  let ?P = "\<lambda>tr. tr = [] \<or> (\<exists>arn msg subj. tr = [Publish arn msg subj])"
  show "\<exists>tr. trace (snd (send_order_notification e oid ev od em w)) = trace w @ tr \<and> ?P tr"
  proof (cases "SNS_TOPIC_ARN e = None \<or> SNS_TOPIC_ARN e = Some []")
    case True
    then show ?thesis by (simp add: send_order_notification_unconfigured)
  next
    case False
    then obtain arn where arn: "SNS_TOPIC_ARN e = Some arn" "arn \<noteq> []" by auto
    obtain r w1 where b: "build_message e oid ev od em w = (r, w1)"
      by (cases "build_message e oid ev od em w")
    have t1: "trace w1 = trace w"
      using preservesD [OF build_message_trace, of e oid ev od em w] b by simp
    show ?thesis
      using arn b t1
      by (cases r)
         (auto simp: send_order_notification_def py_try_def py_bind_def py_return_def sns_publish_trace
               split: prod.splits sum.splits,
          (metis sns_publish_trace snd_conv)+)
  qed
qed

lemma send_order_notification_ordered:
  "emits (send_order_notification e oid ev od em) (ordered_trace k)"
  by (rule emits_weaken [OF send_order_notification_emits]) auto

lemma update_order_status_cases:
  obtains w1 where "update_order_status e oid st ts em w = (Inr (), w1)"
    and "trace w1 = trace w @ [UpdateItem oid ts (status_assigns st (utcnow e (tick w)) em)]"
    and "tick w1 = Suc (Suc (tick w))"
proof -
  obtain r w1 where u: "update_order_status e oid st ts em w = (r, w1)"
    by (cases "update_order_status e oid st ts em w")
  have "r = Inr ()" using update_order_status_fst [of e oid st ts em w] u by simp
  moreover have "trace w1 = trace w @ [UpdateItem oid ts (status_assigns st (utcnow e (tick w)) em)]"
    using update_order_status_trace [of e oid st ts em w] u by simp
  moreover have "tick w1 = Suc (Suc (tick w))"
    using update_order_status_tick [of e oid st ts em w] u by simp
  ultimately show ?thesis using that u by blast
qed

lemma log_exec_bind_starts:
  assumes "emits rest P"
  shows "emits (py_bind (update_order_status e oid nm ts None) (\<lambda>u. py_bind (log_event (Exec nm)) (\<lambda>u. rest)))
           (\<lambda>tr. \<exists>now tr'. tr = UpdateItem oid ts (status_assigns nm now None) # Exec nm # tr' \<and> P tr')"
  unfolding emits_def
proof
  fix w
  obtain w1 where u: "update_order_status e oid nm ts None w = (Inr (), w1)"
    and t1: "trace w1 = trace w @ [UpdateItem oid ts (status_assigns nm (utcnow e (tick w)) None)]"
    by (rule update_order_status_cases)
  let ?w2 = "w1\<lparr>trace := trace w1 @ [Exec nm]\<rparr>"
  from assms obtain tr where tr: "trace (snd (rest ?w2)) = trace ?w2 @ tr" "P tr"
    unfolding emits_def by blast
  have "py_bind (update_order_status e oid nm ts None) (\<lambda>u. py_bind (log_event (Exec nm)) (\<lambda>u. rest)) w
        = rest ?w2"
    by (simp add: py_bind_def log_event_def u)
  with tr t1 show "\<exists>tr. trace (snd (py_bind (update_order_status e oid nm ts None)
                    (\<lambda>u. py_bind (log_event (Exec nm)) (\<lambda>u. rest)) w)) = trace w @ tr
                 \<and> (\<exists>now tr'. tr = UpdateItem oid ts (status_assigns nm now None) # Exec nm # tr' \<and> P tr')"
    by auto
qed

lemma log_exec_bind_emits:
  assumes "emits rest (ordered_trace oid)"
  shows "emits (py_bind (update_order_status e oid nm ts None) (\<lambda>u. py_bind (log_event (Exec nm)) (\<lambda>u. rest)))
           (ordered_trace oid)"
  by (rule emits_weaken [OF log_exec_bind_starts [OF assms]]) (auto simp: status_assigns_def)

lemma run_steps_ordered:
  "(\<And>step. step \<in> set steps \<Longrightarrow> preserves trace (snd step e order)) \<Longrightarrow>
   emits (run_steps e oid order steps) (ordered_trace oid)"
proof (induction steps)
  case Nil
  show ?case by (simp add: emits_return)
next
  case (Cons step steps)
  have ex: "preserves trace (snd step e order)" using Cons.prems by simp
  have rec: "emits (run_steps e oid order steps) (ordered_trace oid)"
    using Cons by simp
  show ?case
    unfolding run_steps.simps
    by (intro emits_bind [OF emits_lift] log_exec_bind_emits
          emits_bind [OF emits_preserves [OF ex]])
       (auto intro!: emits_bind emits_lift emits_return update_order_status_ordered
          send_order_notification_ordered rec ordered_trace_append)
qed

lemma run_pipeline_ordered: "emits (run_pipeline e oid order) (ordered_trace oid)"
  unfolding run_pipeline_def
  by (auto intro!: emits_bind emits_lift emits_return update_order_status_ordered
        send_order_notification_ordered run_steps_ordered executors_trace ordered_trace_append)

lemma process_found_ordered: "emits (process_found e oid order) (ordered_trace oid)"
  unfolding process_found_def Let_def
  by (auto intro!: emits_return run_pipeline_ordered)

lemma process_order_except_ordered:
  "emits (process_order_except e oid order_var ex) (ordered_trace oid)"
  unfolding process_order_except_def
  by (auto intro!: emits_bind emits_lift emits_return update_order_status_ordered
        ordered_trace_append split: option.splits)

lemma table_query_trace:
  "trace (snd (table_query e oid w)) = trace w @ [Query oid]"
  by (simp add: table_query_def Let_def split: pyval.splits option.splits)

lemma process_order_ordered: "emits (process_order e oid) (ordered_trace oid)"
  unfolding emits_def
proof
  fix w
  obtain r w1 where q: "table_query e oid w = (r, w1)" by (cases "table_query e oid w")
  have t1: "trace w1 = trace w @ [Query oid]"
    using table_query_trace [of e oid w] q by simp
  have "\<exists>tr. trace (snd (process_order e oid w)) = trace w1 @ tr \<and> ordered_trace oid tr"
  proof (cases r)
    case (Inl ex)
    with q show ?thesis
      using process_order_except_ordered [of e oid None ex]
      by (simp add: process_order_def emits_def)
  next
    case (Inr items)
    show ?thesis
    proof (cases items)
      case Nil
      with q Inr show ?thesis by (simp add: process_order_def)
    next
      case (Cons order others)
      have "emits (py_try (process_found e oid order) (process_order_except e oid (Some order)))
              (ordered_trace oid)"
        by (intro emits_try process_found_ordered process_order_except_ordered ordered_trace_append)
      with q Inr Cons show ?thesis by (simp add: process_order_def emits_def)
    qed
  qed
  then obtain tr where "trace (snd (process_order e oid w)) = trace w1 @ tr" "ordered_trace oid tr"
    by blast
  with t1 have "trace (snd (process_order e oid w)) = trace w @ (Query oid # tr)
                \<and> ordered_trace oid (Query oid # tr)"
    by simp
  then show "\<exists>tr. trace (snd (process_order e oid w)) = trace w @ tr \<and> ordered_trace oid tr"
    by blast
qed

lemma ordered_trace_Cons:
  assumes "ordered_trace oid (ev # tr)"
  shows "(\<exists>ts a nm tr'. ev = UpdateItem oid ts a \<and> tr = Exec nm # tr' \<and> sets_status a nm
            \<and> ordered_trace oid tr')
         \<or> ((\<forall>nm. ev \<noteq> Exec nm) \<and> ordered_trace oid tr)"
  using assms by (cases "(oid, ev # tr)" rule: ordered_trace.cases) auto

lemma ordered_trace_nth:
  "ordered_trace oid tr \<Longrightarrow> j < length tr \<Longrightarrow> tr ! j = Exec nm \<Longrightarrow>
   0 < j \<and> (\<exists>ts rest. tr ! (j - 1) = UpdateItem oid ts ((''status'', PStr nm) # rest))"
proof (induction tr arbitrary: j rule: length_induct)
  case (1 tr)
  show ?case
  proof (cases tr)
    case Nil
    with "1.prems" show ?thesis by simp
  next
    case (Cons ev tr1)
    from ordered_trace_Cons [OF "1.prems"(1) [unfolded Cons]]
    consider (pair) ts a nm' tr2 where "ev = UpdateItem oid ts a" "tr1 = Exec nm' # tr2"
        "sets_status a nm'" "ordered_trace oid tr2"
      | (skip) "\<forall>nm. ev \<noteq> Exec nm" "ordered_trace oid tr1"
      by blast
    then show ?thesis
    proof cases
      case pair
      show ?thesis
      proof (cases j)
        case 0
        with "1.prems"(3) Cons pair show ?thesis by simp
      next
        case j: (Suc j1)
        show ?thesis
        proof (cases j1)
          case 0
          with j "1.prems"(3) Cons pair have "nm' = nm" by simp
          with pair Cons j 0 show ?thesis by (cases a) auto
        next
          case (Suc j2)
          with j "1.prems" Cons pair have a: "j2 < length tr2" "tr2 ! j2 = Exec nm" by auto
          have "length tr2 < length tr" using Cons pair by simp
          with "1.IH" pair(4) a
          have "0 < j2 \<and> (\<exists>ts rest. tr2 ! (j2 - 1) = UpdateItem oid ts ((''status'', PStr nm) # rest))"
            by blast
          with j Suc Cons pair show ?thesis by (cases j2) auto
        qed
      qed
    next
      case skip
      show ?thesis
      proof (cases j)
        case 0
        with "1.prems"(3) Cons skip show ?thesis by simp
      next
        case (Suc j1)
        with "1.prems" Cons have a: "j1 < length tr1" "tr1 ! j1 = Exec nm" by auto
        have "length tr1 < length tr" using Cons by simp
        with "1.IH" skip(2) a
        have "0 < j1 \<and> (\<exists>ts rest. tr1 ! (j1 - 1) = UpdateItem oid ts ((''status'', PStr nm) # rest))"
          by blast
        with Suc Cons show ?thesis by (cases j1) auto
      qed
    qed
  qed
qed

subsection \<open>The sample run\<close>

lemmas sample_defs =
  sample_env_def sample_world_def sample_attrs_def sample_order_def item_of_def

lemmas eval_defs =
  io_defs Let_def process_order_def table_query_def query_items_def process_found_def run_pipeline_def
  process_order_except_def processing_steps_def update_order_status_def table_update_item_def
  put_attrs_def validate_order_def check_inventory_def process_payment_def fulfill_order_def
  py_getitem_def py_get_def to_float_def round_double_le_zero payment_sleep time_sleep_Fin time_sleep_min_Fin
  send_order_notification_def build_message_def sns_publish_def failed_at_def

lemma sample_run:
  "process_order sample_env (PStr ''o1'') sample_world =
     (Inr True,
      \<lparr>table = [((''o1'', ''t1''),
                 [(''customerId'', PStr ''c1''),
                  (''items'', PList [PDict [(''productId'', PStr ''X''), (''quantity'', PNum 1), (''unitPrice'', PNum 10)]]),
                  (''totalAmount'', PNum 10),
                  (''status'', PStr ''COMPLETED''),
                  (''updatedAt'', PStr ''now'')])],
       trace = [Query (PStr ''o1''),
                UpdateItem (PStr ''o1'') (PStr ''t1'') [(''status'', PStr ''VALIDATING''), (''updatedAt'', PStr ''now'')],
                Exec ''VALIDATING'',
                UpdateItem (PStr ''o1'') (PStr ''t1'') [(''status'', PStr ''INVENTORY_CHECK''), (''updatedAt'', PStr ''now'')],
                Exec ''INVENTORY_CHECK'',
                UpdateItem (PStr ''o1'') (PStr ''t1'') [(''status'', PStr ''PAYMENT_PROCESSING''), (''updatedAt'', PStr ''now'')],
                Exec ''PAYMENT_PROCESSING'',
                UpdateItem (PStr ''o1'') (PStr ''t1'') [(''status'', PStr ''FULFILLMENT''), (''updatedAt'', PStr ''now'')],
                Exec ''FULFILLMENT'',
                UpdateItem (PStr ''o1'') (PStr ''t1'') [(''status'', PStr ''COMPLETED''), (''updatedAt'', PStr ''now'')],
                Publish ''arn:orders'' (CompletedMsg (PStr ''o1'') (PStr ''c1'') 1 (PNum 10) ''now'')
                  ''eCommerce Order COMPLETED''],
       tick = 15\<rparr>)"
  by (simp add: eval_defs sample_defs)

subsection \<open>How the trace of the steps begins\<close>

lemma emits_bind_prefix:
  assumes m: "emits m P" and f: "\<And>x. emits (f x) (\<lambda>tr. True)"
    and app: "\<And>a b. P a \<Longrightarrow> Q (a @ b)"
  shows "emits (py_bind m f) Q"
  unfolding emits_def
proof
  fix w
  obtain r w1 where mw: "m w = (r, w1)" by (cases "m w")
  from m obtain a where a: "trace w1 = trace w @ a" "P a"
    unfolding emits_def using mw by (metis snd_conv)
  show "\<exists>tr. trace (snd (py_bind m f w)) = trace w @ tr \<and> Q tr"
  proof (cases r)
    case (Inl ex)
    with mw a app [OF a(2), of "[]"] show ?thesis by (auto simp: py_bind_def)
  next
    case (Inr x)
    from f [of x] obtain b where b: "trace (snd (f x w1)) = trace w1 @ b"
      unfolding emits_def by blast
    with mw a Inr app [OF a(2), of b] show ?thesis by (auto simp: py_bind_def)
  qed
qed

lemma emits_try_prefix:
  assumes m: "emits m P" and h: "\<And>ex. emits (h ex) (\<lambda>tr. True)"
    and app: "\<And>a b. P a \<Longrightarrow> Q (a @ b)"
  shows "emits (py_try m h) Q"
  unfolding emits_def
proof
  fix w
  obtain r w1 where mw: "m w = (r, w1)" by (cases "m w")
  from m obtain a where a: "trace w1 = trace w @ a" "P a"
    unfolding emits_def using mw by (metis snd_conv)
  show "\<exists>tr. trace (snd (py_try m h w)) = trace w @ tr \<and> Q tr"
  proof (cases r)
    case (Inr x)
    with mw a app [OF a(2), of "[]"] show ?thesis by (auto simp: py_try_def)
  next
    case (Inl ex)
    from h [of ex] obtain b where b: "trace (snd (h ex w1)) = trace w1 @ b"
      unfolding emits_def by blast
    with mw a Inl app [OF a(2), of b] show ?thesis by (auto simp: py_try_def)
  qed
qed

lemma emits_any: "emits m P \<Longrightarrow> emits m (\<lambda>tr. True)"
  by (erule emits_weaken) simp

lemma py_bind_lift_Inr: "py_bind (py_lift (Inr x)) f = f x"
  by (rule ext) (simp add: py_bind_def py_lift_def)

lemma step_rest_ordered:
  assumes ex: "preserves trace (snd step e order)"
    and rest: "emits (run_steps e oid order steps) (ordered_trace oid)"
  shows "emits (py_bind (snd step e order) (\<lambda>success.
       if \<not> success then
         py_bind (py_lift (py_getitem order ''timestamp'')) (\<lambda>ts.
         py_bind (update_order_status e oid ''FAILED'' ts (Some (failed_at (fst step)))) (\<lambda>u.
         py_bind (send_order_notification e oid ''FAILED'' (Some order)
                    (Some (failed_at (fst step)))) (\<lambda>u.
         py_return False)))
       else
         py_bind (py_lift (time_sleep (Fin (1 / 10)))) (\<lambda>u.
         run_steps e oid order steps))) (ordered_trace oid)"
  by (intro emits_bind [OF emits_preserves [OF ex]])
     (auto intro!: emits_bind emits_lift emits_return update_order_status_ordered
        send_order_notification_ordered rest ordered_trace_append)

lemma run_steps_starts:
  assumes ts: "py_getitem order ''timestamp'' = Inr ts"
    and ex: "\<And>s. s \<in> set (step # steps) \<Longrightarrow> preserves trace (snd s e order)"
  shows "emits (run_steps e oid order (step # steps))
           (\<lambda>tr. \<exists>now tr'. tr = UpdateItem oid ts (status_assigns (fst step) now None) # Exec (fst step) # tr')"
proof -
  have rest: "emits (run_steps e oid order steps) (ordered_trace oid)"
    using ex by (intro run_steps_ordered) simp
  have ex1: "preserves trace (snd step e order)" using ex by simp
  note r = step_rest_ordered [OF ex1 rest]
  have eq: "run_steps e oid order (step # steps) =
      py_bind (update_order_status e oid (fst step) ts None) (\<lambda>u.
      py_bind (log_event (Exec (fst step))) (\<lambda>u.
      py_bind (snd step e order) (\<lambda>success.
       if \<not> success then
         py_bind (py_lift (py_getitem order ''timestamp'')) (\<lambda>ts.
         py_bind (update_order_status e oid ''FAILED'' ts (Some (failed_at (fst step)))) (\<lambda>u.
         py_bind (send_order_notification e oid ''FAILED'' (Some order)
                    (Some (failed_at (fst step)))) (\<lambda>u.
         py_return False)))
       else
         py_bind (py_lift (time_sleep (Fin (1 / 10)))) (\<lambda>u.
         run_steps e oid order steps))))"
    by (simp only: run_steps.simps ts py_bind_lift_Inr)
  show ?thesis
    unfolding eq
    by (rule emits_weaken [OF log_exec_bind_starts [OF r]]) blast
qed

lemma query_items_shape:
  assumes "query_items oid tbl = order # others"
  shows "\<exists>ts attrs. order = item_of ((oid, ts), attrs)"
proof -
  have "order \<in> set (query_items oid tbl)" using assms by simp
  then obtain r where "order = item_of r" "fst (fst r) = oid"
    by (auto simp: query_items_def)
  then have "order = item_of ((oid, snd (fst r)), snd r)"
    by (metis prod.collapse)
  then show ?thesis by blast
qed

subsection \<open>The loop over the records\<close>

lemma handle_record_shift:
  "handle_record e r (p, f) w = shift_acc p f (handle_record e r ([], []) w)"
  by (simp add: handle_record_def shift_acc_def io_defs split: sum.splits prod.splits)

lemma records_loop_shift:
  "records_loop e rs (p, f) w = shift_acc p f (records_loop e rs ([], []) w)"
proof (induction rs arbitrary: p f w)
  case Nil
  show ?case by (simp add: shift_acc_def py_return_def)
next
  case (Cons r rs)
  obtain res w1 where h: "handle_record e r ([], []) w = (res, w1)"
    by (cases "handle_record e r ([], []) w")
  show ?case
  proof (cases res)
    case (Inl ex)
    with h show ?thesis
      by (simp add: py_bind_def handle_record_shift [of e r p f] shift_acc_def)
  next
    case (Inr acc)
    obtain dp df where acc: "acc = (dp, df)" by (cases acc)
    have a: "records_loop e (r # rs) (p, f) w = records_loop e rs (p @ dp, f @ df) w1"
      using h Inr acc by (simp add: py_bind_def handle_record_shift [of e r p f] shift_acc_def)
    have b: "records_loop e (r # rs) ([], []) w = records_loop e rs (dp, df) w1"
      using h Inr acc by (simp add: py_bind_def)
    show ?thesis
      unfolding a b
      by (subst Cons.IH [of "p @ dp" "f @ df"], subst Cons.IH [of dp df])
         (simp add: shift_acc_def split: sum.splits prod.splits)
  qed
qed

lemma records_loop_append:
  "records_loop e (xs @ ys) acc w = py_bind (records_loop e xs acc) (\<lambda>acc'. records_loop e ys acc') w"
  by (induction xs arbitrary: acc w) (auto simp: py_bind_def py_return_def split: sum.splits prod.splits)

lemma handle_record_dict:
  assumes "is_dict r"
  shows "\<exists>ok x w'. handle_record e r acc w =
           (Inr (if ok then (fst acc @ [x], snd acc) else (fst acc, snd acc @ [x])), w')"
proof -
  from assms obtain d where r: "r = PDict d" by (cases r) auto
  let ?body = "py_bind (py_lift (decode_message e r)) (\<lambda>msg.
          if snd msg = PStr ''PROCESS_ORDER'' then
            py_bind (process_order e (fst msg)) (\<lambda>result.
              if result then py_return (fst acc @ [fst msg], snd acc)
              else py_return (fst acc, snd acc @ [fst msg]))
          else py_return (fst acc, snd acc @ [fst msg]))"
  obtain res w1 where b: "?body w = (res, w1)" by (cases "?body w")
  show ?thesis
  proof (cases res)
    case (Inl ex)
    with b r have "handle_record e r acc w = (Inr (fst acc, snd acc @ [py_get d ''messageId'' (PStr ''unknown'')]), w1)"
      by (simp add: handle_record_def py_try_def py_bind_def py_lift_def py_return_def)
    then show ?thesis by (intro exI [of _ False]) auto
  next
    case (Inr acc')
    with b have h: "handle_record e r acc w = (Inr acc', w1)"
      by (simp add: handle_record_def py_try_def)
    from b Inr have "\<exists>x. acc' = (fst acc @ [x], snd acc) \<or> acc' = (fst acc, snd acc @ [x])"
      by (auto simp: py_bind_def py_lift_def py_return_def split: sum.splits prod.splits if_splits)
    then obtain x where "acc' = (fst acc @ [x], snd acc) \<or> acc' = (fst acc, snd acc @ [x])" by blast
    then show ?thesis
    proof
      assume "acc' = (fst acc @ [x], snd acc)"
      with h show ?thesis by (intro exI [of _ True]) auto
    next
      assume "acc' = (fst acc, snd acc @ [x])"
      with h show ?thesis by (intro exI [of _ False]) auto
    qed
  qed
qed

lemma handle_record_not_dict:
  assumes "\<not> is_dict r"
  shows "\<exists>ex. handle_record e r acc w = (Inl ex, w)"
  using assms
  by (cases r)
     (simp_all add: handle_record_def decode_message_def py_try_def py_bind_def py_lift_def)

lemma records_loop_partition:
  assumes "\<forall>r\<in>set rs. is_dict r"
  shows "\<exists>tags w'. length tags = length rs \<and>
           records_loop e rs acc w =
             (Inr (fst acc @ map snd (filter fst tags),
                   snd acc @ map snd (filter (\<lambda>t. \<not> fst t) tags)), w')"
  using assms
proof (induction rs arbitrary: acc w)
  case Nil
  show ?case by (simp add: py_return_def)
next
  case (Cons r rs)
  from Cons.prems have "is_dict r" by simp
  from handle_record_dict [OF this, of e acc w] obtain ok x w1 where
    h: "handle_record e r acc w =
          (Inr (if ok then (fst acc @ [x], snd acc) else (fst acc, snd acc @ [x])), w1)"
    by blast
  let ?acc1 = "if ok then (fst acc @ [x], snd acc) else (fst acc, snd acc @ [x])"
  from Cons.IH [of ?acc1 w1] Cons.prems obtain tags w' where
    t: "length tags = length rs"
       "records_loop e rs ?acc1 w1 =
          (Inr (fst ?acc1 @ map snd (filter fst tags),
                snd ?acc1 @ map snd (filter (\<lambda>t. \<not> fst t) tags)), w')"
    by auto
  have "records_loop e (r # rs) acc w = records_loop e rs ?acc1 w1"
    using h by (simp add: py_bind_def)
  with t show ?case
    by (intro exI [of _ "(ok, x) # tags"] exI [of _ w']) auto
qed

subsection \<open>The sample batch\<close>

lemma handle_record_m1:
  "handle_record sample_env (sqs_record ''a'' ''m1'') acc completed_world =
     (Inr (fst acc @ [PStr ''o1''], snd acc),
      completed_world\<lparr>tick := 1, trace := [Query (PStr ''o1'')]\<rparr>)"
  by (simp add: handle_record_def decode_message_def sqs_record_def json_loads_py_def py_getitem_def
        eval_defs sample_env_def completed_world_def completed_attrs_def item_of_def)

lemma send_processing_metrics_no_raise:
  "send_processing_metrics e s f w \<noteq> (Inl ex, w')"
  by (metis send_processing_metrics_fst fst_conv sum.distinct(1))

lemma handle_record_rejected:
  assumes "(\<exists>ex. decode_message e (PDict d) = Inl ex \<and> key = py_get d ''messageId'' (PStr ''unknown'')
              \<and> w' = w)
         \<or> (\<exists>action. decode_message e (PDict d) = Inr (key, action) \<and> action \<noteq> PStr ''PROCESS_ORDER''
              \<and> w' = w)
         \<or> (\<exists>oid ex. decode_message e (PDict d) = Inr (oid, PStr ''PROCESS_ORDER'')
              \<and> process_order e oid w = (Inl ex, w') \<and> key = py_get d ''messageId'' (PStr ''unknown''))"
  shows "handle_record e (PDict d) acc w = (Inr (fst acc, snd acc @ [key]), w')"
  using assms
  by (auto simp: handle_record_def py_try_def py_bind_def py_lift_def py_return_def)

subsection \<open>A failing step\<close>

lemma run_steps_append_ok:
  "run_steps e oid order pre w = (Inr True, w1) \<Longrightarrow>
   run_steps e oid order (pre @ post) w = run_steps e oid order post w1"
proof (induction pre arbitrary: w)
  case Nil
  then show ?case by (simp add: py_return_def)
next
  case (Cons step pre)
  from Cons.prems show ?case
    by (auto simp: py_bind_def py_lift_def py_return_def Cons.IH
             split: sum.splits prod.splits if_splits)
qed

lemma send_order_notification_cases:
  obtains w1 where "send_order_notification e oid ev od em w = (Inr (), w1)"
  by (metis send_order_notification_fst prod.collapse)

lemma run_steps_fail:
  assumes ts: "py_getitem order ''timestamp'' = Inr ts"
    and fails: "snd step e order (snd (log_event (Exec (fst step))
                  (snd (update_order_status e oid (fst step) ts None w1)))) = (Inr False, w3)"
  shows "run_steps e oid order (step # post) w1 =
           (Inr False,
            snd (send_order_notification e oid ''FAILED'' (Some order) (Some (failed_at (fst step)))
              (snd (update_order_status e oid ''FAILED'' ts (Some (failed_at (fst step))) w3))))"
proof -
  obtain wa where ua: "update_order_status e oid (fst step) ts None w1 = (Inr (), wa)"
    by (rule update_order_status_cases)
  from fails have f: "snd step e order (wa\<lparr>trace := trace wa @ [Exec (fst step)]\<rparr>) = (Inr False, w3)"
    by (simp add: ua log_event_def)
  obtain wb where ub: "update_order_status e oid ''FAILED'' ts (Some (failed_at (fst step))) w3 = (Inr (), wb)"
    by (rule update_order_status_cases)
  obtain wc where uc: "send_order_notification e oid ''FAILED'' (Some order) (Some (failed_at (fst step))) wb
                        = (Inr (), wc)"
    by (rule send_order_notification_cases)
  show ?thesis
    by (simp add: ts py_bind_def py_lift_def py_return_def log_event_def ua ub uc f)
qed

lemma failed_at_Cons: "failed_at nm = CHR ''F'' # tl (failed_at nm)"
  by (simp add: failed_at_def)

lemma failed_at_nonempty: "failed_at nm \<noteq> []"
  by (simp add: failed_at_def)

lemma status_write_lookup:
  assumes "oid \<noteq> []" and "ts \<noteq> []" and "update_fault e (Suc (tick w)) = None" and "m \<noteq> []"
  shows "\<exists>attrs. map_of (table (snd (update_order_status e (PStr oid) st (PStr ts) (Some m) w))) (oid, ts)
                  = Some attrs
               \<and> map_of attrs ''status'' = Some (PStr st)
               \<and> map_of attrs ''errorMessage'' = Some (PStr m)"
  using assms
  by (simp add: update_order_status_table put_attrs_def status_assigns_def update_conv')

lemmas handler_defs = handler_def handle_record_def decode_message_def json_loads_py_def
  send_processing_metrics_def cloudwatch_put_metric_data_def sqs_record_def

subsection \<open>Runs that differ in the faults of the side effects\<close>

lemma agree_refl: "agree S w w"
  by (simp add: agree_def)

lemma agree_mono: "agree S w1 w2 \<Longrightarrow> S \<subseteq> S' \<Longrightarrow> agree S' w1 w2"
  by (auto simp: agree_def)

lemma corr_return: "corr S (py_return x) (py_return x)"
  by (simp add: corr_def py_return_def)

lemma corr_lift: "corr S (py_lift r) (py_lift r)"
  by (simp add: corr_def py_lift_def)

lemma corr_split:
  assumes "corr S m m'" and "agree S w1 w2"
  obtains r v1 v2 where "m w1 = (r, v1)" and "m' w2 = (r, v2)" and "agree S v1 v2"
proof -
  from assms have "fst (m w1) = fst (m' w2)" "agree S (snd (m w1)) (snd (m' w2))"
    unfolding corr_def by blast+
  then show ?thesis
    using that [of "fst (m w1)" "snd (m w1)" "snd (m' w2)"] by (metis prod.collapse)
qed

lemma corr_bind:
  assumes "corr S m m'" and "\<And>x. corr S (f x) (f' x)"
  shows "corr S (py_bind m f) (py_bind m' f')"
  unfolding corr_def
proof (intro allI impI)
  fix w1 w2 assume a: "agree S w1 w2"
  from assms(1) a obtain r v1 v2 where m: "m w1 = (r, v1)" "m' w2 = (r, v2)" and v: "agree S v1 v2"
    by (rule corr_split)
  show "fst (py_bind m f w1) = fst (py_bind m' f' w2)
        \<and> agree S (snd (py_bind m f w1)) (snd (py_bind m' f' w2))"
  proof (cases r)
    case (Inl ex)
    with m v show ?thesis by (simp add: py_bind_def)
  next
    case (Inr x)
    with m v assms(2) [of x] show ?thesis by (simp add: py_bind_def corr_def)
  qed
qed

lemma corr_try:
  assumes "corr S m m'" and "\<And>ex. corr S (h ex) (h' ex)"
  shows "corr S (py_try m h) (py_try m' h')"
  unfolding corr_def
proof (intro allI impI)
  fix w1 w2 assume a: "agree S w1 w2"
  from assms(1) a obtain r v1 v2 where m: "m w1 = (r, v1)" "m' w2 = (r, v2)" and v: "agree S v1 v2"
    by (rule corr_split)
  show "fst (py_try m h w1) = fst (py_try m' h' w2)
        \<and> agree S (snd (py_try m h w1)) (snd (py_try m' h' w2))"
  proof (cases r)
    case (Inr x)
    with m v show ?thesis by (simp add: py_try_def)
  next
    case (Inl ex)
    with m v assms(2) [of ex] show ?thesis by (simp add: py_try_def corr_def)
  qed
qed

lemma corr_utcnow: "same_but_faults e e' \<Longrightarrow> corr S (datetime_utcnow e) (datetime_utcnow e')"
  by (simp add: corr_def agree_def datetime_utcnow_def same_but_faults_def)

lemma corr_random: "same_but_faults e e' \<Longrightarrow> corr S (random_random e) (random_random e')"
  by (simp add: corr_def agree_def random_random_def same_but_faults_def)

lemma corr_log_event: "corr S (log_event ev) (log_event ev)"
  by (simp add: corr_def agree_def log_event_def)

lemmas corr_intros = corr_return corr_lift corr_bind corr_try corr_utcnow corr_random corr_log_event

lemma to_float_same: "same_but_faults e e' \<Longrightarrow> to_float e' = to_float e"
  by (rule ext) (simp add: to_float_def same_but_faults_def split: pyval.splits)

lemma corr_inventory_loop:
  "same_but_faults e e' \<Longrightarrow> corr S (inventory_loop e xs) (inventory_loop e' xs)"
  by (induction xs) (auto intro!: corr_intros)

lemma corr_validate_order:
  "same_but_faults e e' \<Longrightarrow> corr S (validate_order e order) (validate_order e' order)"
  unfolding validate_order_def by (auto intro!: corr_intros simp: to_float_same)

lemma corr_check_inventory:
  "same_but_faults e e' \<Longrightarrow> corr S (check_inventory e order) (check_inventory e' order)"
  unfolding check_inventory_def by (auto intro!: corr_intros corr_inventory_loop)

lemma corr_process_payment:
  "same_but_faults e e' \<Longrightarrow> corr S (process_payment e order) (process_payment e' order)"
  unfolding process_payment_def by (auto intro!: corr_intros simp: to_float_same)

lemma corr_fulfill_order:
  "same_but_faults e e' \<Longrightarrow> corr S (fulfill_order e order) (fulfill_order e' order)"
  unfolding fulfill_order_def by (auto intro!: corr_intros)

lemma corr_executors:
  "same_but_faults e e' \<Longrightarrow> step \<in> set processing_steps \<Longrightarrow>
   corr S (snd step e order) (snd step e' order)"
  by (auto simp: processing_steps_def corr_validate_order corr_check_inventory
        corr_process_payment corr_fulfill_order)

lemma filter_update_other:
  "\<not> P (k, v) \<Longrightarrow> (\<And>v'. \<not> P (k, v')) \<Longrightarrow> filter P (AList.update k v tbl) = filter P tbl"
  by (induction tbl) auto

lemma put_attrs_other:
  "o' \<noteq> oid \<Longrightarrow>
   filter (\<lambda>r. fst (fst r) = oid) (put_attrs (o', ts) assigns tbl) = filter (\<lambda>r. fst (fst r) = oid) tbl"
  unfolding put_attrs_def by (rule filter_update_other) auto

lemma update_order_status_table_cases:
  "table (snd (update_order_status e order_id st ts em w)) = table w
   \<or> (\<exists>oid t a. order_id = PStr oid \<and>
         table (snd (update_order_status e order_id st ts em w)) = put_attrs (oid, t) a (table w))"
  by (auto simp: update_order_status_def io_defs table_update_item_def Let_def
           split: pyval.splits option.splits)

lemma update_order_status_filter:
  assumes "\<And>o'. order_id = PStr o' \<Longrightarrow> o' \<noteq> oid"
  shows "filter (\<lambda>r. fst (fst r) = oid) (table (snd (update_order_status e order_id st ts em w)))
         = filter (\<lambda>r. fst (fst r) = oid) (table w)"
  using update_order_status_table_cases [of e order_id st ts em w] assms
  by (auto simp: put_attrs_other)

lemma corr_update_order_status:
  assumes "same_but_faults e e'" and "\<And>oid. order_id = PStr oid \<Longrightarrow> oid \<in> S"
  shows "corr S (update_order_status e order_id st ts em) (update_order_status e' order_id st ts em)"
  unfolding corr_def
proof (intro allI impI conjI)
  fix w1 w2 assume a: "agree S w1 w2"
  show "fst (update_order_status e order_id st ts em w1) = fst (update_order_status e' order_id st ts em w2)"
    by simp
  have u: "utcnow e' = utcnow e" using assms(1) by (simp add: same_but_faults_def)
  have "filter (\<lambda>r. fst (fst r) = oid) (table (snd (update_order_status e order_id st ts em w1)))
      = filter (\<lambda>r. fst (fst r) = oid) (table (snd (update_order_status e' order_id st ts em w2)))"
    if "oid \<notin> S" for oid
  proof -
    have ne: "\<And>o'. order_id = PStr o' \<Longrightarrow> o' \<noteq> oid" using assms(2) that by auto
    show ?thesis
      using a that by (simp add: update_order_status_filter [OF ne] agree_def)
  qed
  then show "agree S (snd (update_order_status e order_id st ts em w1))
                     (snd (update_order_status e' order_id st ts em w2))"
    using a by (simp add: agree_def u)
qed

lemma corr_build_message:
  "same_but_faults e e' \<Longrightarrow> corr S (build_message e oid ev od em) (build_message e' oid ev od em)"
  unfolding build_message_def Let_def by (auto intro!: corr_intros)

lemma sns_publish_agree:
  "agree S w1 w2 \<Longrightarrow> agree S (snd (sns_publish e arn msg subj w1)) (snd (sns_publish e' arn msg subj w2))"
  by (simp add: sns_publish_def Let_def agree_def split: option.splits)

lemma try_unit_snd:
  "snd (py_try (py_bind m f) (\<lambda>ex. py_return ()) w) =
     (case m w of (Inl ex, w1) \<Rightarrow> w1 | (Inr x, w1) \<Rightarrow> snd (f x w1))"
  by (simp add: py_try_def py_bind_def py_return_def split: prod.splits sum.splits)

lemma corr_send_order_notification:
  assumes "same_but_faults e e'"
  shows "corr S (send_order_notification e oid ev od em) (send_order_notification e' oid ev od em)"
  unfolding corr_def
proof (intro allI impI conjI)
  fix w1 w2 assume a: "agree S w1 w2"
  show "fst (send_order_notification e oid ev od em w1) = fst (send_order_notification e' oid ev od em w2)"
    by simp
  have arn: "SNS_TOPIC_ARN e' = SNS_TOPIC_ARN e" using assms by (simp add: same_but_faults_def)
  from corr_build_message [OF assms, of S oid ev od em] a
  obtain r v1 v2 where b: "build_message e oid ev od em w1 = (r, v1)"
      "build_message e' oid ev od em w2 = (r, v2)" and v: "agree S v1 v2"
    by (rule corr_split)
  show "agree S (snd (send_order_notification e oid ev od em w1))
                (snd (send_order_notification e' oid ev od em w2))"
    using a b v sns_publish_agree [OF v, of e _ _ _ e']
    by (auto simp: send_order_notification_def arn try_unit_snd py_return_def
             split: option.splits sum.splits)
qed

lemma corr_send_processing_metrics:
  assumes "same_but_faults e e'"
  shows "corr S (send_processing_metrics e s f) (send_processing_metrics e' s f)"
  unfolding corr_def
proof (intro allI impI conjI)
  fix w1 w2 assume a: "agree S w1 w2"
  show "fst (send_processing_metrics e s f w1) = fst (send_processing_metrics e' s f w2)"
    by simp
  show "agree S (snd (send_processing_metrics e s f w1)) (snd (send_processing_metrics e' s f w2))"
    using a
    by (simp add: send_processing_metrics_def cloudwatch_put_metric_data_def io_defs Let_def agree_def
             split: option.splits)
qed

lemma corr_run_steps:
  assumes "same_but_faults e e'" and "\<And>oid. order_id = PStr oid \<Longrightarrow> oid \<in> S"
  shows "(\<And>step. step \<in> set steps \<Longrightarrow> corr S (snd step e order) (snd step e' order)) \<Longrightarrow>
         corr S (run_steps e order_id order steps) (run_steps e' order_id order steps)"
proof (induction steps)
  case Nil
  show ?case by (simp add: corr_return)
next
  case (Cons step steps)
  have ex: "corr S (snd step e order) (snd step e' order)" using Cons.prems by simp
  have rec: "corr S (run_steps e order_id order steps) (run_steps e' order_id order steps)"
    using Cons by simp
  show ?case
    unfolding run_steps.simps
    by (intro corr_bind corr_lift corr_log_event ex corr_update_order_status [OF assms])
       (auto intro!: corr_bind corr_lift corr_return rec corr_update_order_status [OF assms]
          corr_send_order_notification [OF assms(1)])
qed

lemma corr_run_pipeline:
  assumes "same_but_faults e e'" and "\<And>oid. order_id = PStr oid \<Longrightarrow> oid \<in> S"
  shows "corr S (run_pipeline e order_id order) (run_pipeline e' order_id order)"
  unfolding run_pipeline_def
  by (intro corr_bind corr_run_steps [OF assms] corr_executors [OF assms(1)])
     (auto intro!: corr_bind corr_lift corr_return corr_update_order_status [OF assms]
        corr_send_order_notification [OF assms(1)])

lemma corr_process_found:
  assumes "same_but_faults e e'" and "\<And>oid. order_id = PStr oid \<Longrightarrow> oid \<in> S"
  shows "corr S (process_found e order_id order) (process_found e' order_id order)"
  unfolding process_found_def Let_def
  by (auto intro!: corr_return corr_run_pipeline [OF assms])

lemma corr_process_order_except:
  assumes "same_but_faults e e'" and "\<And>oid. order_id = PStr oid \<Longrightarrow> oid \<in> S"
  shows "corr S (process_order_except e order_id order_var ex) (process_order_except e' order_id order_var ex)"
  unfolding process_order_except_def
  by (auto intro!: corr_bind corr_lift corr_return corr_update_order_status [OF assms]
           split: option.splits)

lemma query_items_agree:
  "agree S w1 w2 \<Longrightarrow> oid \<notin> S \<Longrightarrow> query_items oid (table w1) = query_items oid (table w2)"
  by (simp add: query_items_def agree_def)

lemma table_query_agree:
  assumes "same_but_faults e e'" and "agree S w1 w2" and "\<And>oid. order_id = PStr oid \<Longrightarrow> oid \<notin> S"
  shows "fst (table_query e order_id w1) = fst (table_query e' order_id w2)
       \<and> agree S (snd (table_query e order_id w1)) (snd (table_query e' order_id w2))"
proof -
  have qf: "query_fault e' = query_fault e" using assms(1) by (simp add: same_but_faults_def)
  have t: "tick w1 = tick w2" using assms(2) by (simp add: agree_def)
  show ?thesis
  proof (cases order_id)
    case (PStr oid)
    then have "oid \<notin> S" using assms(3) by simp
    from query_items_agree [OF assms(2) this] assms(2) PStr show ?thesis
      by (simp add: table_query_def Let_def qf t agree_def split: option.splits)
  qed (use assms(2) in \<open>simp_all add: table_query_def Let_def agree_def\<close>)
qed

lemma process_order_agree:
  assumes sb: "same_but_faults e e'" and a: "agree S0 w1 w2"
    and new: "\<And>oid. order_id = PStr oid \<Longrightarrow> oid \<notin> S0"
    and S: "S = S0 \<union> {oid. order_id = PStr oid}"
  shows "fst (process_order e order_id w1) = fst (process_order e' order_id w2)
       \<and> agree S (snd (process_order e order_id w1)) (snd (process_order e' order_id w2))"
proof -
  have inS: "\<And>oid. order_id = PStr oid \<Longrightarrow> oid \<in> S" using S by simp
  from table_query_agree [OF sb a new]
  obtain r v1 v2 where q: "table_query e order_id w1 = (r, v1)" "table_query e' order_id w2 = (r, v2)"
    and v0: "agree S0 v1 v2"
    by (metis prod.collapse)
  have v: "agree S v1 v2" using v0 S by (auto intro: agree_mono)
  show ?thesis
  proof (cases r)
    case (Inl ex)
    with q v corr_process_order_except [OF sb inS, where order_var = None and ex = ex] show ?thesis
      by (simp add: process_order_def corr_def)
  next
    case (Inr items)
    show ?thesis
    proof (cases items)
      case Nil
      with q v Inr show ?thesis by (simp add: process_order_def)
    next
      case (Cons order others)
      have "corr S (py_try (process_found e order_id order) (process_order_except e order_id (Some order)))
                   (py_try (process_found e' order_id order) (process_order_except e' order_id (Some order)))"
        by (intro corr_try corr_process_found [OF sb inS] corr_process_order_except [OF sb inS])
      with q v Inr Cons show ?thesis by (simp add: process_order_def corr_def)
    qed
  qed
qed

lemma json_loads_py_same: "same_but_faults e e' \<Longrightarrow> json_loads_py e' = json_loads_py e"
  by (rule ext) (simp add: json_loads_py_def same_but_faults_def split: pyval.splits)

lemma decode_message_same:
  assumes "same_but_faults e e'"
  shows "decode_message e' record = decode_message e record"
  unfolding decode_message_def json_loads_py_same [OF assms] by (rule refl)

lemma handle_record_agree:
  assumes sb: "same_but_faults e e'" and a: "agree S0 w1 w2"
    and new: "\<And>oid. dispatch_id e record = Some oid \<Longrightarrow> oid \<notin> S0"
    and S: "S = S0 \<union> set_option (dispatch_id e record)"
  shows "fst (handle_record e record acc w1) = fst (handle_record e' record acc w2)
       \<and> agree S (snd (handle_record e record acc w1)) (snd (handle_record e' record acc w2))"
proof -
  have aS: "agree S w1 w2" using a S by (auto intro: agree_mono)
  note d = decode_message_same [OF sb, of "record"]
  show ?thesis
  proof (cases "decode_message e record")
    case (Inl ex)
    with aS show ?thesis
      by (simp add: handle_record_def d py_try_def py_bind_def py_lift_def py_return_def
               split: sum.splits)
  next
    case (Inr msg)
    show ?thesis
    proof (cases "snd msg = PStr ''PROCESS_ORDER''")
      case False
      with Inr aS show ?thesis
        by (simp add: handle_record_def d py_try_def py_bind_def py_lift_def py_return_def)
    next
      case True
      have di: "dispatch_id e record = (case fst msg of PStr oid \<Rightarrow> Some oid | _ \<Rightarrow> None)"
        using Inr True by (simp add: dispatch_id_def split: pyval.splits)
      have new': "\<And>oid. fst msg = PStr oid \<Longrightarrow> oid \<notin> S0"
        using new di by simp
      have S': "S = S0 \<union> {oid. fst msg = PStr oid}"
        using S di by (auto split: pyval.splits)
      from process_order_agree [OF sb a new' S']
      obtain r v1 v2 where p: "process_order e (fst msg) w1 = (r, v1)"
          "process_order e' (fst msg) w2 = (r, v2)" and v: "agree S v1 v2"
        by (metis prod.collapse)
      with Inr True show ?thesis
        by (simp add: handle_record_def d py_try_def py_bind_def py_lift_def py_return_def
                 split: sum.splits)
    qed
  qed
qed

lemma records_loop_agree:
  assumes sb: "same_but_faults e e'"
  shows "agree S0 w1 w2 \<Longrightarrow> distinct (List.map_filter (dispatch_id e) rs) \<Longrightarrow>
         set (List.map_filter (dispatch_id e) rs) \<inter> S0 = {} \<Longrightarrow>
         fst (records_loop e rs acc w1) = fst (records_loop e' rs acc w2)
         \<and> agree (S0 \<union> set (List.map_filter (dispatch_id e) rs))
             (snd (records_loop e rs acc w1)) (snd (records_loop e' rs acc w2))"
proof (induction rs arbitrary: S0 w1 w2 acc)
  case Nil
  then show ?case by (simp add: py_return_def List.map_filter_simps)
next
  case (Cons r rs)
  let ?ids = "List.map_filter (dispatch_id e) rs"
  let ?S1 = "S0 \<union> set_option (dispatch_id e r)"
  have ids: "List.map_filter (dispatch_id e) (r # rs) =
               (case dispatch_id e r of None \<Rightarrow> ?ids | Some oid \<Rightarrow> oid # ?ids)"
    by (simp add: List.map_filter_simps)
  have new: "\<And>oid. dispatch_id e r = Some oid \<Longrightarrow> oid \<notin> S0"
    using Cons.prems(3) ids by auto
  have d: "distinct ?ids" using Cons.prems(2) ids by (auto split: option.splits)
  have dj: "set ?ids \<inter> ?S1 = {}"
    using Cons.prems(2,3) ids by (auto split: option.splits)
  have fin: "?S1 \<union> set ?ids = S0 \<union> set (List.map_filter (dispatch_id e) (r # rs))"
    using ids by (auto split: option.splits)
  from handle_record_agree [OF sb Cons.prems(1) new refl, where acc = acc]
  obtain res v1 v2 where h: "handle_record e r acc w1 = (res, v1)"
      "handle_record e' r acc w2 = (res, v2)" and v: "agree ?S1 v1 v2"
    by (metis prod.collapse)
  show ?case
  proof (cases res)
    case (Inl ex)
    have "agree (?S1 \<union> set ?ids) v1 v2" using v by (auto intro: agree_mono)
    with h Inl show ?thesis by (simp add: py_bind_def fin)
  next
    case (Inr acc')
    from Cons.IH [OF v d dj, where acc = acc'] h Inr show ?thesis
      by (simp add: py_bind_def fin)
  qed
qed

lemma handler_agree:
  assumes sb: "same_but_faults e e'" and d: "distinct (dispatched_ids e event)"
  shows "fst (handler e' event w) = fst (handler e event w)"
proof (cases "py_subscript event ''Records''")
  case (Inl ex)
  then show ?thesis by (simp add: handler_def py_bind_def py_lift_def)
next
  case (Inr records)
  show ?thesis
  proof (cases "py_iter records")
    case (Inl ex)
    with Inr show ?thesis by (simp add: handler_def py_bind_def py_lift_def)
  next
    case rs: (Inr rs)
    from d Inr rs have dd: "distinct (List.map_filter (dispatch_id e) rs)"
      by (simp add: dispatched_ids_def)
    have ag: "agree {} w w" by (rule agree_refl)
    have "fst (records_loop e rs ([], []) w) = fst (records_loop e' rs ([], []) w)"
      using records_loop_agree [OF sb ag dd, where acc = "([], [])"] by simp
    then obtain res v1 v2 where l: "records_loop e rs ([], []) w = (res, v1)"
        "records_loop e' rs ([], []) w = (res, v2)"
      by (metis prod.collapse)
    show ?thesis
      using Inr rs l
      by (cases res)
         (simp_all add: handler_def py_bind_def py_lift_def py_return_def
            send_processing_metrics_no_raise split: prod.splits sum.splits)
  qed
qed

section \<open>Orders already handled\<close>

text \<open>
  C1. When the record that \<^verbatim>\<open>process_order\<close> loads has a status other than \<^verbatim>\<open>PENDING\<close>
  (\<^verbatim>\<open>COMPLETED\<close> and \<^verbatim>\<open>FAILED\<close> in particular), the call returns \<^verbatim>\<open>True\<close>, leaves the table as it
  was, and adds nothing to the trace but its query: no write, no executor, no notification.
\<close>

theorem process_order_idempotent:
  assumes "oid \<noteq> []" and "query_fault e (tick w) = None"
    and "query_items oid (table w) = order # others"
    and "py_get order ''status'' (PStr ''PENDING'') \<noteq> PStr ''PENDING''"
  shows "fst (process_order e (PStr oid) w) = Inr True
       \<and> table (snd (process_order e (PStr oid) w)) = table w
       \<and> trace (snd (process_order e (PStr oid) w)) = trace w @ [Query (PStr oid)]"
  using assms
  by (simp add: process_order_def table_query_found process_found_def py_try_def py_return_def)

theorem process_order_idempotent_witness:
  "fst (process_order sample_env (PStr ''o1'') completed_world) = Inr True
   \<and> table (snd (process_order sample_env (PStr ''o1'') completed_world)) = table completed_world
   \<and> trace (snd (process_order sample_env (PStr ''o1'') completed_world)) =
       trace completed_world @ [Query (PStr ''o1'')]"
proof -
  have q: "query_items ''o1'' (table completed_world) = item_of ((''o1'', ''t1''), completed_attrs) # []"
    by (simp add: query_items_def completed_world_def)
  have s: "py_get (item_of ((''o1'', ''t1''), completed_attrs)) ''status'' (PStr ''PENDING'') \<noteq> PStr ''PENDING''"
    by (simp add: py_get_def item_of_def completed_attrs_def)
  have f: "query_fault sample_env (tick completed_world) = None"
    by (simp add: sample_env_def)
  show ?thesis
    using process_order_idempotent [of "''o1''" sample_env completed_world, OF _ f q s] by simp
qed

section \<open>A failing step\<close>

text \<open>
  C2. Let the loaded record be pending, let the steps before \<open>step\<close> have succeeded (the loop
  over them ends normally, in world \<open>w1\<close>) and let the executor of \<open>step\<close>, invoked after the
  write of its status, return \<^verbatim>\<open>False\<close> in world \<open>w3\<close>. Then \<^verbatim>\<open>process_order\<close> returns \<^verbatim>\<open>False\<close>,
  and all that follows the executor's return in the trace is the request that sets \<^verbatim>\<open>status\<close>
  to \<^verbatim>\<open>FAILED\<close> and \<^verbatim>\<open>errorMessage\<close> to \<^verbatim>\<open>Failed at\<close> and the step's name, then one failure
  notification when a topic is configured: no later executor is invoked. When the store
  accepts the write, the record holds that status and that message.
\<close>

theorem failed_step_stops_processing:
  assumes "oid \<noteq> []" and "query_fault e (tick w) = None"
    and found: "query_items oid (table w) = order # others"
    and pending: "py_get order ''status'' (PStr ''PENDING'') = PStr ''PENDING''"
    and ts: "py_getitem order ''timestamp'' = Inr (PStr ts)"
    and steps: "processing_steps = pre @ step # post"
    and pre_ok: "run_steps e (PStr oid) order pre
                   (w\<lparr>tick := Suc (tick w), trace := trace w @ [Query (PStr oid)]\<rparr>) = (Inr True, w1)"
    and fails: "snd step e order (snd (log_event (Exec (fst step))
                  (snd (update_order_status e (PStr oid) (fst step) (PStr ts) None w1)))) = (Inr False, w3)"
  shows "fst (process_order e (PStr oid) w) = Inr False
       \<and> trace (snd (process_order e (PStr oid) w)) =
           trace w3 @
           UpdateItem (PStr oid) (PStr ts)
             [(''status'', PStr ''FAILED''), (''updatedAt'', PStr (utcnow e (tick w3))),
              (''errorMessage'', PStr (''Failed at '' @ fst step))] #
           (case SNS_TOPIC_ARN e of
              None \<Rightarrow> []
            | Some arn \<Rightarrow>
                if arn = [] then []
                else [Publish arn
                        (FailedMsg (PStr (take 8 oid)) (py_get order ''customerId'' (PStr ''Unknown''))
                           (Some (''Failed at '' @ fst step)) (utcnow e (Suc (Suc (tick w3)))))
                        ''eCommerce Order FAILED''])
       \<and> (ts \<noteq> [] \<longrightarrow> update_fault e (Suc (tick w3)) = None \<longrightarrow>
            (\<exists>attrs. map_of (table (snd (process_order e (PStr oid) w))) (oid, ts) = Some attrs
                  \<and> map_of attrs ''status'' = Some (PStr ''FAILED'')
                  \<and> map_of attrs ''errorMessage'' = Some (PStr (''Failed at '' @ fst step))))"
proof -
  let ?w0 = "w\<lparr>tick := Suc (tick w), trace := trace w @ [Query (PStr oid)]\<rparr>"
  let ?msg = "failed_at (fst step)"
  let ?wb = "snd (update_order_status e (PStr oid) ''FAILED'' (PStr ts) (Some ?msg) w3)"
  let ?wc = "snd (send_order_notification e (PStr oid) ''FAILED'' (Some order) (Some ?msg) ?wb)"
  have rs: "run_steps e (PStr oid) order processing_steps ?w0 = (Inr False, ?wc)"
    unfolding steps
    by (simp only: run_steps_append_ok [OF pre_ok] run_steps_fail [OF ts fails])
  have po: "process_order e (PStr oid) w = (Inr False, ?wc)"
    using assms(1,2) found pending
    by (simp add: process_order_def table_query_found process_found_def run_pipeline_def
          py_try_def py_bind_def py_return_def rs)
  have ne: "order \<noteq> []" using ts by (auto simp: py_getitem_def)
  have tr: "trace ?wc =
           trace w3 @
           UpdateItem (PStr oid) (PStr ts)
             [(''status'', PStr ''FAILED''), (''updatedAt'', PStr (utcnow e (tick w3))),
              (''errorMessage'', PStr ?msg)] #
           (case SNS_TOPIC_ARN e of
              None \<Rightarrow> []
            | Some arn \<Rightarrow>
                if arn = [] then []
                else [Publish arn
                        (FailedMsg (PStr (take 8 oid)) (py_get order ''customerId'' (PStr ''Unknown''))
                           (Some ?msg) (utcnow e (Suc (Suc (tick w3)))))
                        ''eCommerce Order FAILED''])"
    by (subst failed_at_Cons, subst send_failed_notification_trace [OF ne])
       (simp add: status_assigns_def failed_at_Cons [symmetric] failed_at_nonempty split: option.splits)
  have tb: "\<exists>attrs. map_of (table ?wc) (oid, ts) = Some attrs
                  \<and> map_of attrs ''status'' = Some (PStr ''FAILED'')
                  \<and> map_of attrs ''errorMessage'' = Some (PStr ?msg)"
    if "ts \<noteq> []" "update_fault e (Suc (tick w3)) = None"
  proof -
    have "?msg \<noteq> []" by (rule failed_at_nonempty)
    from status_write_lookup [OF assms(1) that this, of "''FAILED''"]
    show ?thesis
      by (simp add: preservesD [OF send_order_notification_table])
  qed
  have "fst (process_order e (PStr oid) w) = Inr False
       \<and> trace (snd (process_order e (PStr oid) w)) =
           trace w3 @
           UpdateItem (PStr oid) (PStr ts)
             [(''status'', PStr ''FAILED''), (''updatedAt'', PStr (utcnow e (tick w3))),
              (''errorMessage'', PStr ?msg)] #
           (case SNS_TOPIC_ARN e of
              None \<Rightarrow> []
            | Some arn \<Rightarrow>
                if arn = [] then []
                else [Publish arn
                        (FailedMsg (PStr (take 8 oid)) (py_get order ''customerId'' (PStr ''Unknown''))
                           (Some ?msg) (utcnow e (Suc (Suc (tick w3)))))
                        ''eCommerce Order FAILED''])
       \<and> (ts \<noteq> [] \<longrightarrow> update_fault e (Suc (tick w3)) = None \<longrightarrow>
            (\<exists>attrs. map_of (table (snd (process_order e (PStr oid) w))) (oid, ts) = Some attrs
                  \<and> map_of attrs ''status'' = Some (PStr ''FAILED'')
                  \<and> map_of attrs ''errorMessage'' = Some (PStr ?msg)))"
    unfolding po fst_conv snd_conv using tr tb by blast
  then show ?thesis unfolding failed_at_def .
qed

theorem failed_step_stops_processing_witness:
  "fst (process_order declined_env (PStr ''o1'') sample_world) = Inr False
   \<and> trace (snd (process_order declined_env (PStr ''o1'') sample_world)) =
       [Query (PStr ''o1''),
        UpdateItem (PStr ''o1'') (PStr ''t1'') [(''status'', PStr ''VALIDATING''), (''updatedAt'', PStr ''now'')],
        Exec ''VALIDATING'',
        UpdateItem (PStr ''o1'') (PStr ''t1'') [(''status'', PStr ''INVENTORY_CHECK''), (''updatedAt'', PStr ''now'')],
        Exec ''INVENTORY_CHECK'',
        UpdateItem (PStr ''o1'') (PStr ''t1'') [(''status'', PStr ''PAYMENT_PROCESSING''), (''updatedAt'', PStr ''now'')],
        Exec ''PAYMENT_PROCESSING'',
        UpdateItem (PStr ''o1'') (PStr ''t1'')
          [(''status'', PStr ''FAILED''), (''updatedAt'', PStr ''now''),
           (''errorMessage'', PStr ''Failed at PAYMENT_PROCESSING'')],
        Publish ''arn:orders''
          (FailedMsg (PStr ''o1'') (PStr ''c1'') (Some ''Failed at PAYMENT_PROCESSING'') ''now'')
          ''eCommerce Order FAILED'']
   \<and> (\<exists>attrs. map_of (table (snd (process_order declined_env (PStr ''o1'') sample_world))) (''o1'', ''t1'')
                 = Some attrs
             \<and> map_of attrs ''status'' = Some (PStr ''FAILED'')
             \<and> map_of attrs ''errorMessage'' = Some (PStr ''Failed at PAYMENT_PROCESSING''))"
proof -
  let ?items = "PList [PDict [(''productId'', PStr ''X''), (''quantity'', PNum 1), (''unitPrice'', PNum 10)]]"
  let ?tr1 = "[Query (PStr ''o1''),
        UpdateItem (PStr ''o1'') (PStr ''t1'') [(''status'', PStr ''VALIDATING''), (''updatedAt'', PStr ''now'')],
        Exec ''VALIDATING'',
        UpdateItem (PStr ''o1'') (PStr ''t1'') [(''status'', PStr ''INVENTORY_CHECK''), (''updatedAt'', PStr ''now'')],
        Exec ''INVENTORY_CHECK'']"
  let ?w1 = "\<lparr>table = [((''o1'', ''t1''),
                 [(''customerId'', PStr ''c1''), (''items'', ?items), (''totalAmount'', PNum 10),
                  (''status'', PStr ''INVENTORY_CHECK''), (''updatedAt'', PStr ''now'')])],
             trace = ?tr1, tick = 6\<rparr>"
  let ?w3 = "\<lparr>table = [((''o1'', ''t1''),
                 [(''customerId'', PStr ''c1''), (''items'', ?items), (''totalAmount'', PNum 10),
                  (''status'', PStr ''PAYMENT_PROCESSING''), (''updatedAt'', PStr ''now'')])],
             trace = ?tr1 @
               [UpdateItem (PStr ''o1'') (PStr ''t1'')
                  [(''status'', PStr ''PAYMENT_PROCESSING''), (''updatedAt'', PStr ''now'')],
                Exec ''PAYMENT_PROCESSING''],
             tick = 9\<rparr>"
  have ne: "''o1'' \<noteq> []" by simp
  have qf: "query_fault declined_env (tick sample_world) = None"
    by (simp add: declined_env_def sample_env_def)
  have found: "query_items ''o1'' (table sample_world) = sample_order # []"
    by (simp add: query_items_def sample_world_def sample_order_def)
  have pending: "py_get sample_order ''status'' (PStr ''PENDING'') = PStr ''PENDING''"
    by (simp add: py_get_def sample_defs)
  have ts: "py_getitem sample_order ''timestamp'' = Inr (PStr ''t1'')"
    by (simp add: py_getitem_def sample_defs)
  have steps: "processing_steps =
      [(''VALIDATING'', validate_order), (''INVENTORY_CHECK'', check_inventory)]
      @ (''PAYMENT_PROCESSING'', process_payment) # [(''FULFILLMENT'', fulfill_order)]"
    by (simp add: processing_steps_def)
  have pre_ok: "run_steps declined_env (PStr ''o1'') sample_order
      [(''VALIDATING'', validate_order), (''INVENTORY_CHECK'', check_inventory)]
      (sample_world\<lparr>tick := Suc (tick sample_world), trace := trace sample_world @ [Query (PStr ''o1'')]\<rparr>)
      = (Inr True, ?w1)"
    by (simp add: eval_defs sample_defs declined_env_def)
  have fails: "snd (''PAYMENT_PROCESSING'', process_payment) declined_env sample_order
      (snd (log_event (Exec (fst (''PAYMENT_PROCESSING'', process_payment)))
         (snd (update_order_status declined_env (PStr ''o1'') (fst (''PAYMENT_PROCESSING'', process_payment))
                 (PStr ''t1'') None ?w1)))) = (Inr False, ?w3)"
    by (simp add: eval_defs sample_defs declined_env_def)
  have t: "''t1'' \<noteq> []" by simp
  have uf: "update_fault declined_env (Suc (tick ?w3)) = None"
    by (simp add: declined_env_def sample_env_def)
  from failed_step_stops_processing [OF ne qf found pending ts steps pre_ok fails] t uf
  show ?thesis
    by (simp add: declined_env_def sample_env_def py_get_def sample_defs)
qed

section \<open>The top-level handler of \<^verbatim>\<open>process_order\<close>\<close>

lemma process_order_query_fault:
  "oid \<noteq> [] \<Longrightarrow> query_fault e (tick w) = Some ex \<Longrightarrow>
   \<exists>msg. fst (process_order e (PStr oid) w) = Inl (UnboundLocalError msg)"
  by (simp add: process_order_def table_query_def Let_def process_order_except_def py_lift_def)

text \<open>
  C3. The \<^verbatim>\<open>except\<close> block of \<^verbatim>\<open>process_order\<close> is meant to mark the record \<^verbatim>\<open>FAILED\<close> and
  return \<^verbatim>\<open>False\<close> for any fault. When the fault is raised by the query, the variable
  \<^verbatim>\<open>order\<close> that the block reads is not bound yet: the block raises \<^verbatim>\<open>UnboundLocalError\<close>,
  no write is attempted, and the exception reaches the caller. By
  \<open>process_order_query_fault\<close> this is so for every fault of the query; here the store rejects
  the query of order \<open>o1\<close> for throughput.
\<close>

theorem query_fault_escapes:
  "process_order
     (sample_env\<lparr>query_fault := (\<lambda>n. Some (ClientError ''ProvisionedThroughputExceededException''))\<rparr>)
     (PStr ''o1'') sample_world =
   (Inl (UnboundLocalError ''cannot access local variable order where it is not associated with a value''),
    sample_world\<lparr>tick := 1, trace := [Query (PStr ''o1'')]\<rparr>)"
  by (simp add: process_order_def table_query_def Let_def process_order_except_def py_lift_def
        sample_env_def sample_world_def)

section \<open>Which record the query yields\<close>

text \<open>
  C4. With two records under one order id, \<^verbatim>\<open>process_order\<close> takes the first item of the
  query, which is the one with the smallest \<^verbatim>\<open>timestamp\<close>: the oldest, not the most recently
  written. Here the older record is \<^verbatim>\<open>COMPLETED\<close> and the newer one \<^verbatim>\<open>PENDING\<close>: the call
  returns at the status check on the older record and the pending one is never processed.
\<close>

theorem oldest_record_is_processed:
  "process_order sample_env (PStr ''o1'') two_record_world =
     (Inr True, two_record_world\<lparr>tick := 1, trace := [Query (PStr ''o1'')]\<rparr>)"
  by (simp add: process_order_def table_query_def Let_def two_record_world_def sample_env_def
        query_items_def item_of_def completed_attrs_def process_found_def py_get_def py_try_def
        py_return_def)

section \<open>Validation\<close>

lemma required_loop_three:
  "required_loop order [''customerId'', ''items'', ''totalAmount''] =
     Inr ((\<exists>c. map_of order ''customerId'' = Some c \<and> truthy c)
        \<and> (\<exists>i. map_of order ''items'' = Some i \<and> truthy i)
        \<and> (\<exists>t. map_of order ''totalAmount'' = Some t \<and> truthy t))"
  by (auto simp: py_getitem_def split: option.splits)

text \<open>
  A positive number that the table can hold is at least \<open>1E-130\<close>, far above the totals
  that \<^verbatim>\<open>float()\<close> rounds to zero.
\<close>

lemma table_number_above_underflow: "(1::rat) / 10 ^ 130 \<le> d \<Longrightarrow> 1 / 2 ^ 1075 < d"
  by (rule less_le_trans [of _ "1 / 10 ^ 130"]) simp_all

text \<open>
  C5, as stated, fails for one kind of total. The order below has its id, a customer, one
  item and the total \<^verbatim>\<open>Decimal('1E-330')\<close>, which is positive; \<^verbatim>\<open>float()\<close> rounds it to \<^verbatim>\<open>0.0\<close>,
  the test \<^verbatim>\<open>float(order['totalAmount']) <= 0\<close> holds and \<^verbatim>\<open>validate_order\<close> returns \<^verbatim>\<open>False\<close>.
\<close>

theorem tiny_total_counterexample:
  "map_of tiny_total_order ''orderId'' = Some (PStr ''o1'')
   \<and> map_of tiny_total_order ''customerId'' = Some (PStr ''c1'')
   \<and> map_of tiny_total_order ''items'' =
       Some (PList [PDict [(''productId'', PStr ''X''), (''quantity'', PNum 1), (''unitPrice'', PNum 10)]])
   \<and> map_of tiny_total_order ''totalAmount'' = Some (PNum (1 / 10 ^ 330))
   \<and> (0::rat) < 1 / 10 ^ 330
   \<and> validate_order sample_env tiny_total_order sample_world = (Inr False, sample_world)"
  by (simp add: tiny_total_order_def tiny_total_attrs_def item_of_def validate_order_def
        py_try_def py_bind_def py_lift_def py_return_def py_getitem_def to_float_def
        round_double_le_zero)

text \<open>
  C5, amended. \<^verbatim>\<open>validate_order\<close> returns \<^verbatim>\<open>False\<close> when \<^verbatim>\<open>customerId\<close>, \<^verbatim>\<open>items\<close> or
  \<^verbatim>\<open>totalAmount\<close> is missing or empty (falsy, as Python tests it), when \<^verbatim>\<open>items\<close> is not a
  non-empty list, and when the total converts to a float that is zero or negative: for a
  number, when it is at most \<open>2^-1075\<close>, so when it is zero, negative, or positive and rounded
  to zero. It returns \<^verbatim>\<open>True\<close> for an order with its id, a non-empty customer, at least one
  item and a numeric total above \<open>2^-1075\<close>, that is, a positive total whose float is not
  zero; by \<open>table_number_above_underflow\<close> every positive number of the table is one. It
  never changes the world.
\<close>

theorem validate_order_spec:
  "((map_of order ''customerId'' = None \<or> map_of order ''items'' = None \<or> map_of order ''totalAmount'' = None
      \<or> (\<exists>v. map_of order ''customerId'' = Some v \<and> \<not> truthy v)
      \<or> (\<exists>v. map_of order ''items'' = Some v \<and> (\<not> is_list v \<or> v = PList []))
      \<or> (\<exists>v. map_of order ''totalAmount'' = Some v \<and>
               (\<not> truthy v \<or> (\<exists>f. to_float e v = Inr f \<and> float_le f (Fin 0)))))
     \<longrightarrow> validate_order e order w = (Inr False, w))
   \<and> ((\<exists>d. map_of order ''totalAmount'' = Some (PNum d) \<and> d \<le> 1 / 2 ^ 1075)
     \<longrightarrow> validate_order e order w = (Inr False, w))
   \<and> ((\<exists>oid c x xs d. map_of order ''orderId'' = Some oid \<and> map_of order ''customerId'' = Some c \<and> truthy c
          \<and> map_of order ''items'' = Some (PList (x # xs))
          \<and> map_of order ''totalAmount'' = Some (PNum d) \<and> 1 / 2 ^ 1075 < d)
     \<longrightarrow> validate_order e order w = (Inr True, w))"
proof -
  have first: "validate_order e order w = (Inr False, w)"
    if bad: "map_of order ''customerId'' = None \<or> map_of order ''items'' = None \<or> map_of order ''totalAmount'' = None
      \<or> (\<exists>v. map_of order ''customerId'' = Some v \<and> \<not> truthy v)
      \<or> (\<exists>v. map_of order ''items'' = Some v \<and> (\<not> is_list v \<or> v = PList []))
      \<or> (\<exists>v. map_of order ''totalAmount'' = Some v \<and>
               (\<not> truthy v \<or> (\<exists>f. to_float e v = Inr f \<and> float_le f (Fin 0))))"
  proof (cases "required_loop order [''customerId'', ''items'', ''totalAmount''] = Inr True")
    case False
    then have "required_loop order [''customerId'', ''items'', ''totalAmount''] = Inr False"
      unfolding required_loop_three by simp
    then show ?thesis
      by (simp add: validate_order_def py_try_def py_bind_def py_lift_def py_return_def
            del: required_loop.simps)
  next
    case True
    then obtain c i t where
      c: "map_of order ''customerId'' = Some c" "truthy c" and
      i: "map_of order ''items'' = Some i" "truthy i" and
      t: "map_of order ''totalAmount'' = Some t" "truthy t"
      unfolding required_loop_three by auto
    from bad c i t have "\<not> is_list i \<or> i = PList [] \<or> (\<exists>f. to_float e t = Inr f \<and> float_le f (Fin 0))"
      by auto
    then show ?thesis
      using c i t True
      by (cases i)
         (auto simp: validate_order_def py_try_def py_bind_def py_lift_def py_return_def py_getitem_def
               simp del: required_loop.simps)
  qed
  have second: "validate_order e order w = (Inr False, w)"
    if "\<exists>d. map_of order ''totalAmount'' = Some (PNum d) \<and> d \<le> 1 / 2 ^ 1075"
  proof -
    from that obtain d where d: "map_of order ''totalAmount'' = Some (PNum d)" "d \<le> 1 / 2 ^ 1075"
      by blast
    from d(2) have "to_float e (PNum d) = Inr (round_double d) \<and> float_le (round_double d) (Fin 0)"
      by (simp only: to_float_def pyval.case round_double_le_zero simp_thms)
    with d(1) show ?thesis by (intro first) blast
  qed
  have third: "validate_order e order w = (Inr True, w)"
    if "\<exists>oid c x xs d. map_of order ''orderId'' = Some oid \<and> map_of order ''customerId'' = Some c \<and> truthy c
          \<and> map_of order ''items'' = Some (PList (x # xs))
          \<and> map_of order ''totalAmount'' = Some (PNum d) \<and> 1 / 2 ^ 1075 < d"
  proof -
    from that obtain oid c x xs d where h: "map_of order ''orderId'' = Some oid"
      "map_of order ''customerId'' = Some c" "truthy c"
      "map_of order ''items'' = Some (PList (x # xs))" "map_of order ''totalAmount'' = Some (PNum d)"
      and d: "1 / 2 ^ 1075 < d"
      by blast
    have "(0::rat) < 1 / 2 ^ 1075" by simp
    then have "0 < d" using d by (rule less_trans)
    then have t: "truthy (PNum d)" by simp
    from d have le: "\<not> float_le (round_double d) (Fin 0)"
      unfolding round_double_le_zero by (simp only: not_le)
    from h t le show ?thesis
      by (simp add: validate_order_def required_loop_three py_try_def py_bind_def py_lift_def
            py_return_def py_getitem_def to_float_def del: required_loop.simps)
  qed
  from first second third show ?thesis by blast
qed

theorem validate_order_spec_witness:
  "validate_order sample_env (sample_order[3 := (''items'', PList [])]) sample_world = (Inr False, sample_world)
   \<and> validate_order sample_env negative_total_order sample_world = (Inr False, sample_world)
   \<and> validate_order sample_env sample_order sample_world = (Inr True, sample_world)"
proof -
  have empty: "validate_order sample_env (sample_order[3 := (''items'', PList [])]) sample_world
      = (Inr False, sample_world)"
    by (rule validate_order_spec [THEN conjunct1, THEN mp])
       (simp add: sample_order_def item_of_def sample_attrs_def)
  have bad: "validate_order sample_env negative_total_order sample_world = (Inr False, sample_world)"
    by (rule validate_order_spec [THEN conjunct2, THEN conjunct1, THEN mp])
       (simp add: negative_total_order_def negative_total_attrs_def item_of_def)
  have good: "validate_order sample_env sample_order sample_world = (Inr True, sample_world)"
    by (rule validate_order_spec [THEN conjunct2, THEN conjunct2, THEN mp])
       (simp add: sample_order_def item_of_def sample_attrs_def)
  from empty bad good show ?thesis by simp
qed

section \<open>Batch isolation\<close>

text \<open>
  C6. A message that is rejected is recorded once and changes nothing for the others.
  The record \<open>PDict d\<close> is rejected when its decoding raises (it is then recorded under its
  \<^verbatim>\<open>messageId\<close>, or \<^verbatim>\<open>unknown\<close>), when its action is not \<^verbatim>\<open>PROCESS_ORDER\<close> (recorded under its order
  id, and \<^verbatim>\<open>process_order\<close> is not called: the world is as before), or when \<^verbatim>\<open>process_order\<close>
  itself raises (recorded under its \<^verbatim>\<open>messageId\<close>). With \<open>pre\<close> the records before it and
  \<open>post\<close> those after it, the batch yields what \<open>pre\<close> and \<open>post\<close> yield, plus this one entry in
  the failed list; and where \<^verbatim>\<open>process_order\<close> was not called, the other records are handled
  exactly as in the batch without the message.
\<close>

theorem invalid_message_is_isolated:
  assumes bad:
      "(\<exists>ex. decode_message e (PDict d) = Inl ex \<and> key = py_get d ''messageId'' (PStr ''unknown'')
          \<and> w1' = w1)
       \<or> (\<exists>action. decode_message e (PDict d) = Inr (key, action) \<and> action \<noteq> PStr ''PROCESS_ORDER''
          \<and> w1' = w1)
       \<or> (\<exists>oid ex. decode_message e (PDict d) = Inr (oid, PStr ''PROCESS_ORDER'')
          \<and> process_order e oid w1 = (Inl ex, w1') \<and> key = py_get d ''messageId'' (PStr ''unknown''))"
    and pre: "records_loop e pre ([], []) w = (Inr (p1, f1), w1)"
    and post: "records_loop e post ([], []) w1' = (Inr (p2, f2), w2)"
  shows "handle_record e (PDict d) (p1, f1) w1 = (Inr (p1, f1 @ [key]), w1')
       \<and> records_loop e (pre @ PDict d # post) ([], []) w = (Inr (p1 @ p2, f1 @ key # f2), w2)
       \<and> fst (handler e (PDict [(''Records'', PList (pre @ PDict d # post))]) w) =
           Response200 (p1 @ p2) (f1 @ key # f2)
       \<and> (w1' = w1 \<longrightarrow> records_loop e (pre @ post) ([], []) w = (Inr (p1 @ p2, f1 @ f2), w2))"
proof -
  have h: "handle_record e (PDict d) (p1, f1) w1 = (Inr (p1, f1 @ [key]), w1')"
    using handle_record_rejected [OF bad, of "(p1, f1)"] by simp
  have a: "records_loop e post (p1, f1 @ [key]) w1' = (Inr (p1 @ p2, f1 @ key # f2), w2)"
    by (subst records_loop_shift) (simp add: post shift_acc_def)
  have b: "records_loop e post (p1, f1) w1' = (Inr (p1 @ p2, f1 @ f2), w2)"
    by (subst records_loop_shift) (simp add: post shift_acc_def)
  have l1: "records_loop e (pre @ PDict d # post) ([], []) w = (Inr (p1 @ p2, f1 @ key # f2), w2)"
    by (simp add: records_loop_append py_bind_def pre h a)
  have l2: "records_loop e (pre @ post) ([], []) w = (Inr (p1 @ p2, f1 @ f2), w2)" if "w1' = w1"
    using b that by (simp add: records_loop_append py_bind_def pre)
  have l3: "fst (handler e (PDict [(''Records'', PList (pre @ PDict d # post))]) w) =
           Response200 (p1 @ p2) (f1 @ key # f2)"
    using l1
    by (simp add: handler_def py_bind_def py_lift_def py_return_def py_getitem_def
          send_processing_metrics_no_raise split: prod.splits sum.splits)
  from h l1 l2 l3 show ?thesis by simp
qed

theorem invalid_message_is_isolated_witness:
  "handle_record sample_env (sqs_record ''b'' ''m2'') ([PStr ''o1''], [])
       (completed_world\<lparr>tick := 1, trace := [Query (PStr ''o1'')]\<rparr>) =
     (Inr ([PStr ''o1''], [PStr ''o2'']), completed_world\<lparr>tick := 1, trace := [Query (PStr ''o1'')]\<rparr>)
   \<and> records_loop sample_env sample_records ([], []) completed_world =
       (Inr ([PStr ''o1''], [PStr ''o2'', PStr ''c'']),
        completed_world\<lparr>tick := 1, trace := [Query (PStr ''o1'')]\<rparr>)
   \<and> fst (handler sample_env sample_event completed_world) =
       Response200 [PStr ''o1''] [PStr ''o2'', PStr ''c'']
   \<and> records_loop sample_env [sqs_record ''a'' ''m1'', sqs_record ''c'' ''m3''] ([], []) completed_world =
       (Inr ([PStr ''o1''], [PStr ''c'']),
        completed_world\<lparr>tick := 1, trace := [Query (PStr ''o1'')]\<rparr>)"
proof -
  let ?w1 = "completed_world\<lparr>tick := 1, trace := [Query (PStr ''o1'')]\<rparr>"
  let ?d = "[(''messageId'', PStr ''b''), (''body'', PStr ''m2'')]"
  have bad: "(\<exists>ex. decode_message sample_env (PDict ?d) = Inl ex
                \<and> PStr ''o2'' = py_get ?d ''messageId'' (PStr ''unknown'') \<and> ?w1 = ?w1)
       \<or> (\<exists>action. decode_message sample_env (PDict ?d) = Inr (PStr ''o2'', action)
                \<and> action \<noteq> PStr ''PROCESS_ORDER'' \<and> ?w1 = ?w1)
       \<or> (\<exists>oid ex. decode_message sample_env (PDict ?d) = Inr (oid, PStr ''PROCESS_ORDER'')
                \<and> process_order sample_env oid ?w1 = (Inl ex, ?w1)
                \<and> PStr ''o2'' = py_get ?d ''messageId'' (PStr ''unknown''))"
    by (simp add: decode_message_def json_loads_py_def py_getitem_def sample_env_def)
  have pre: "records_loop sample_env [sqs_record ''a'' ''m1''] ([], []) completed_world =
               (Inr ([PStr ''o1''], []), ?w1)"
    by (simp add: handle_record_m1 py_bind_def py_return_def)
  have post: "records_loop sample_env [sqs_record ''c'' ''m3''] ([], []) ?w1 =
               (Inr ([], [PStr ''c'']), ?w1)"
    by (simp add: handle_record_def decode_message_def sqs_record_def json_loads_py_def py_getitem_def
          py_get_def io_defs sample_env_def)
  from invalid_message_is_isolated [OF bad pre post]
  show ?thesis
    by (simp add: sample_records_def sample_event_def sqs_record_def)
qed

section \<open>Status visibility\<close>

text \<open>
  C7. In the trace of \<^verbatim>\<open>process_order\<close>, every invocation of a step executor comes right after
  the \<^verbatim>\<open>update_item\<close> request that sets the order's \<^verbatim>\<open>status\<close> to that step's name. The request
  is the write of \<^verbatim>\<open>update_order_status\<close>, which is sent before the executor runs whether or not
  the store then accepts it.
\<close>

theorem status_written_before_executor:
  assumes "length (trace w) \<le> i"
    and "i < length (trace (snd (process_order e order_id w)))"
    and "trace (snd (process_order e order_id w)) ! i = Exec nm"
  shows "length (trace w) < i
       \<and> (\<exists>ts rest. trace (snd (process_order e order_id w)) ! (i - 1) =
                      UpdateItem order_id ts ((''status'', PStr nm) # rest))"
proof -
  from process_order_ordered [of e order_id] obtain tr where
    tr: "trace (snd (process_order e order_id w)) = trace w @ tr" "ordered_trace order_id tr"
    unfolding emits_def by blast
  let ?j = "i - length (trace w)"
  have j: "?j < length tr" "tr ! ?j = Exec nm"
    using assms tr by (auto simp: nth_append)
  from ordered_trace_nth [OF tr(2) j]
  obtain ts rest where p: "0 < ?j" "tr ! (?j - 1) = UpdateItem order_id ts ((''status'', PStr nm) # rest)"
    by blast
  have "(trace w @ tr) ! (i - 1) = tr ! (?j - 1)"
    using p(1) by (auto simp: nth_append)
  with p tr show ?thesis by auto
qed

theorem status_written_before_executor_witness:
  "trace (snd (process_order sample_env (PStr ''o1'') sample_world)) ! 2 = Exec ''VALIDATING''
   \<and> length (trace sample_world) < 2
   \<and> (\<exists>ts rest. trace (snd (process_order sample_env (PStr ''o1'') sample_world)) ! (2 - 1) =
                  UpdateItem (PStr ''o1'') ts ((''status'', PStr ''VALIDATING'') # rest))"
proof -
  have a: "length (trace sample_world) \<le> 2" by (simp add: sample_world_def)
  have b: "2 < length (trace (snd (process_order sample_env (PStr ''o1'') sample_world)))"
    by (simp add: sample_run)
  have c: "trace (snd (process_order sample_env (PStr ''o1'') sample_world)) ! 2 = Exec ''VALIDATING''"
    by (simp add: sample_run)
  from status_written_before_executor [OF a b c] c show ?thesis by simp
qed

section \<open>Best-effort side effects\<close>

text \<open>
  C8, as stated, fails for the batch handler. Order \<open>o1\<close> has a negative total and its
  message is delivered twice in one batch. With a store that accepts the writes, the first
  delivery fails validation and marks the record \<^verbatim>\<open>FAILED\<close>, and the second returns at the
  status check and counts as processed. With a store that rejects every write, the record stays
  \<^verbatim>\<open>PENDING\<close> and the second delivery fails validation again. The two environments differ
  only in the faults of \<^verbatim>\<open>update_order_status\<close>, and the handler's results differ.
\<close>

theorem duplicate_delivery_counterexample:
  "fst (handler sample_env duplicate_event negative_total_world) = Response200 [PStr ''o1''] [PStr ''o1'']
   \<and> fst (handler rejecting_env duplicate_event negative_total_world) = Response200 [] [PStr ''o1'', PStr ''o1'']
   \<and> same_but_faults sample_env rejecting_env"
  by (simp add: handler_defs eval_defs sample_env_def rejecting_env_def duplicate_event_def
        negative_total_world_def negative_total_attrs_def item_of_def same_but_faults_def)

text \<open>
  C8, amended. \<^verbatim>\<open>update_order_status\<close>, \<^verbatim>\<open>send_order_notification\<close> and
  \<^verbatim>\<open>send_processing_metrics\<close> never raise; without a configured topic the notification does
  nothing; the result of \<^verbatim>\<open>process_order\<close> is the same whether or not these calls fault; and
  so is the result of \<^verbatim>\<open>handler\<close> for a batch that hands no order id to \<^verbatim>\<open>process_order\<close>
  twice.
\<close>

theorem side_effect_faults_are_isolated:
  assumes "same_but_faults e e'"
  shows "fst (update_order_status e order_id status ts em w) = Inr ()
       \<and> fst (send_order_notification e order_id ev od em w) = Inr ()
       \<and> fst (send_processing_metrics e n k w) = Inr ()
       \<and> (SNS_TOPIC_ARN e = None \<or> SNS_TOPIC_ARN e = Some [] \<longrightarrow>
            send_order_notification e order_id ev od em w = (Inr (), w))
       \<and> fst (process_order e' order_id w) = fst (process_order e order_id w)
       \<and> (distinct (dispatched_ids e event) \<longrightarrow> fst (handler e' event w) = fst (handler e event w))"
proof -
  have ag: "agree {} w w" by (rule agree_refl)
  have po: "fst (process_order e' order_id w) = fst (process_order e order_id w)"
    using process_order_agree [OF assms ag _ refl, of order_id] by simp
  show ?thesis
    using po handler_agree [OF assms, of event w]
    by (simp add: send_order_notification_unconfigured)
qed

theorem side_effect_faults_are_isolated_witness:
  "fst (update_order_status quiet_env (PStr ''o1'') ''FAILED'' (PStr ''t1'') None sample_world) = Inr ()
   \<and> fst (send_order_notification quiet_env (PStr ''o1'') ''FAILED'' (Some sample_order) None sample_world) = Inr ()
   \<and> fst (send_processing_metrics quiet_env 1 0 sample_world) = Inr ()
   \<and> send_order_notification quiet_env (PStr ''o1'') ''FAILED'' (Some sample_order) None sample_world
       = (Inr (), sample_world)
   \<and> fst (process_order quiet_rejecting_env (PStr ''o1'') sample_world)
       = fst (process_order quiet_env (PStr ''o1'') sample_world)
   \<and> fst (handler quiet_rejecting_env sample_event sample_world)
       = fst (handler quiet_env sample_event sample_world)"
proof -
  have sb: "same_but_faults quiet_env quiet_rejecting_env"
    by (simp add: same_but_faults_def quiet_rejecting_env_def)
  have no_topic: "SNS_TOPIC_ARN quiet_env = None \<or> SNS_TOPIC_ARN quiet_env = Some []"
    by (simp add: quiet_env_def)
  have d: "distinct (dispatched_ids quiet_env sample_event)"
    by (simp add: dispatched_ids_def dispatch_id_def decode_message_def json_loads_py_def
          py_getitem_def sample_event_def sample_records_def sqs_record_def quiet_env_def sample_env_def
          List.map_filter_simps)
  from side_effect_faults_are_isolated [OF sb, of "PStr ''o1''" "''FAILED''" "PStr ''t1''" None
      sample_world "''FAILED''" "Some sample_order" 1 0 sample_event] no_topic d
  show ?thesis by simp
qed

section \<open>A record without a status\<close>

text \<open>
  C9. When the loaded record has no \<^verbatim>\<open>status\<close> attribute, the status check reads \<^verbatim>\<open>PENDING\<close>:
  \<^verbatim>\<open>process_order\<close> runs the steps on it, under its \<^verbatim>\<open>except\<close> block, and its trace goes on
  after the query with the \<^verbatim>\<open>VALIDATING\<close> write and the invocation of the first executor.
\<close>

theorem missing_status_is_pending:
  assumes "oid \<noteq> []" and "query_fault e (tick w) = None"
    and "query_items oid (table w) = order # others"
    and "map_of order ''status'' = None"
  shows "process_order e (PStr oid) w =
           py_try (run_pipeline e (PStr oid) order) (process_order_except e (PStr oid) (Some order))
             (w\<lparr>tick := Suc (tick w), trace := trace w @ [Query (PStr oid)]\<rparr>)
       \<and> (\<exists>ts now tr. trace (snd (process_order e (PStr oid) w)) =
             trace w @ [Query (PStr oid),
                        UpdateItem (PStr oid) ts [(''status'', PStr ''VALIDATING''), (''updatedAt'', PStr now)],
                        Exec ''VALIDATING''] @ tr)"
proof -
  let ?w0 = "w\<lparr>tick := Suc (tick w), trace := trace w @ [Query (PStr oid)]\<rparr>"
  let ?H = "process_order_except e (PStr oid) (Some order)"
  have eq: "process_order e (PStr oid) w = py_try (run_pipeline e (PStr oid) order) ?H ?w0"
    using assms
    by (simp add: process_order_def table_query_found process_found_def py_get_def)
  from query_items_shape [OF assms(3)] obtain ts attrs where "order = item_of ((oid, ts), attrs)"
    by blast
  then have ts: "py_getitem order ''timestamp'' = Inr (PStr ts)"
    by (simp add: item_of_def py_getitem_def)
  let ?P = "\<lambda>tr. \<exists>now tr'. tr = UpdateItem (PStr oid) (PStr ts)
                [(''status'', PStr ''VALIDATING''), (''updatedAt'', PStr now)] # Exec ''VALIDATING'' # tr'"
  have ps: "processing_steps = (''VALIDATING'', validate_order) # tl processing_steps"
    by (simp add: processing_steps_def)
  have st0: "emits (run_steps e (PStr oid) order ((''VALIDATING'', validate_order) # tl processing_steps))
      (\<lambda>tr. \<exists>now tr'. tr = UpdateItem (PStr oid) (PStr ts)
          (status_assigns (fst (''VALIDATING'', validate_order)) now None)
          # Exec (fst (''VALIDATING'', validate_order)) # tr')"
  proof (rule run_steps_starts [OF ts])
    fix s
    assume "s \<in> set ((''VALIDATING'', validate_order) # tl processing_steps)"
    then have "s \<in> set processing_steps" using ps by simp
    then show "preserves trace (snd s e order)" by (rule executors_trace)
  qed
  have st: "emits (run_steps e (PStr oid) order processing_steps) ?P"
    using st0 by (simp add: ps [symmetric] status_assigns_def del: run_steps.simps)
  have k: "emits (if \<not> all_done then py_return False
       else
         py_bind (py_lift (py_getitem order ''timestamp'')) (\<lambda>ts.
         py_bind (update_order_status e (PStr oid) ''COMPLETED'' ts None) (\<lambda>u.
         py_bind (send_order_notification e (PStr oid) ''COMPLETED'' (Some order) None) (\<lambda>u.
         py_return True)))) (\<lambda>tr. True)" for all_done
    by (auto intro!: emits_bind emits_lift emits_return
          emits_any [OF update_order_status_ordered] emits_any [OF send_order_notification_ordered])
  have h: "emits (?H ex) (\<lambda>tr. True)" for ex
    by (rule emits_any [OF process_order_except_ordered])
  have "emits (py_bind (run_steps e (PStr oid) order processing_steps) (\<lambda>all_done.
       if \<not> all_done then py_return False
       else
         py_bind (py_lift (py_getitem order ''timestamp'')) (\<lambda>ts.
         py_bind (update_order_status e (PStr oid) ''COMPLETED'' ts None) (\<lambda>u.
         py_bind (send_order_notification e (PStr oid) ''COMPLETED'' (Some order) None) (\<lambda>u.
         py_return True))))) ?P"
    by (rule emits_bind_prefix [OF st k]) auto
  then have "emits (py_try (run_pipeline e (PStr oid) order) ?H) ?P"
    unfolding run_pipeline_def
    by (rule emits_try_prefix [OF _ h]) auto
  then obtain tr where "trace (snd (py_try (run_pipeline e (PStr oid) order) ?H ?w0)) = trace ?w0 @ tr" "?P tr"
    unfolding emits_def by blast
  with eq show ?thesis by auto
qed

theorem missing_status_is_pending_witness:
  "process_order sample_env (PStr ''o1'') no_status_world =
     py_try (run_pipeline sample_env (PStr ''o1'') (item_of ((''o1'', ''t1''), no_status_attrs)))
       (process_order_except sample_env (PStr ''o1'') (Some (item_of ((''o1'', ''t1''), no_status_attrs))))
       (no_status_world\<lparr>tick := Suc (tick no_status_world),
          trace := trace no_status_world @ [Query (PStr ''o1'')]\<rparr>)
   \<and> (\<exists>ts now tr. trace (snd (process_order sample_env (PStr ''o1'') no_status_world)) =
         trace no_status_world @
         [Query (PStr ''o1''),
          UpdateItem (PStr ''o1'') ts [(''status'', PStr ''VALIDATING''), (''updatedAt'', PStr now)],
          Exec ''VALIDATING''] @ tr)"
proof -
  have f: "query_fault sample_env (tick no_status_world) = None"
    by (simp add: sample_env_def)
  have q: "query_items ''o1'' (table no_status_world) = item_of ((''o1'', ''t1''), no_status_attrs) # []"
    by (simp add: query_items_def no_status_world_def)
  have s: "map_of (item_of ((''o1'', ''t1''), no_status_attrs)) ''status'' = None"
    by (simp add: item_of_def no_status_attrs_def)
  show ?thesis
    by (rule missing_status_is_pending [OF _ f q s]) simp
qed

section \<open>The batch summary\<close>

text \<open>
  C10. When the event's \<^verbatim>\<open>Records\<close> can be iterated and every record is a dict (by
  \<open>handle_record_dict\<close> and \<open>handle_record_not_dict\<close>, exactly then no fault leaves the handling
  of a record), \<^verbatim>\<open>handler\<close> returns status 200 whatever the orders'
  outcomes, and each record adds one entry to exactly one of \<^verbatim>\<open>processedOrders\<close> and
  \<^verbatim>\<open>failedOrders\<close>: the two lists are the entries tagged true and those tagged false of one list
  with an entry per record, so their lengths add up to the number of records.
\<close>

theorem handler_partitions_batch:
  assumes "py_subscript event ''Records'' = Inr records"
    and "py_iter records = Inr rs"
    and "\<forall>r\<in>set rs. is_dict r"
  shows "\<exists>processed failed w' tags.
           handler e event w = (Response200 processed failed, w')
         \<and> length processed + length failed = length rs
         \<and> length tags = length rs
         \<and> processed = map snd (filter fst tags)
         \<and> failed = map snd (filter (\<lambda>t. \<not> fst t) tags)"
proof -
  from records_loop_partition [OF assms(3), of e "([], [])" w] obtain tags w1 where
    t: "length tags = length rs"
       "records_loop e rs ([], []) w =
          (Inr (map snd (filter fst tags), map snd (filter (\<lambda>t. \<not> fst t) tags)), w1)"
    by auto
  let ?p = "map snd (filter fst tags)" and ?f = "map snd (filter (\<lambda>t. \<not> fst t) tags)"
  obtain w2 where m: "send_processing_metrics e (length (filter fst tags))
                        (length (filter (\<lambda>t. \<not> fst t) tags)) w1 = (Inr (), w2)"
    by (metis send_processing_metrics_fst prod.collapse)
  have h: "handler e event w = (Response200 ?p ?f, w2)"
    using assms(1,2) t(2)
    by (simp add: handler_def py_bind_def py_lift_def py_return_def m)
  have "length ?p + length ?f = length tags"
    by (simp add: sum_length_filter_compl)
  with h t(1) show ?thesis by auto
qed

theorem handler_partitions_batch_witness:
  "\<exists>processed failed w' tags.
      handler sample_env sample_event completed_world = (Response200 processed failed, w')
    \<and> length processed + length failed = length sample_records
    \<and> length tags = length sample_records
    \<and> processed = map snd (filter fst tags)
    \<and> failed = map snd (filter (\<lambda>t. \<not> fst t) tags)"
proof -
  have a: "py_subscript sample_event ''Records'' = Inr (PList sample_records)"
    by (simp add: sample_event_def py_getitem_def)
  have b: "py_iter (PList sample_records) = Inr sample_records" by simp
  have c: "\<forall>r\<in>set sample_records. is_dict r"
    by (simp add: sample_records_def sqs_record_def)
  show ?thesis by (rule handler_partitions_batch [OF a b c])
qed

end
